theory Spec2Isabelle
  imports Main
begin

section \<open>JavaScript values and objects\<close>

text \<open>
  The event module (\<^verbatim>\<open>src/unnamed/part_001\<close>) works on plain JavaScript objects that
  come from JSON request bodies and from the document store. A value is null, a boolean,
  a number, a string, or the store's server-timestamp placeholder. An object is a finite
  map from property names to values; reading a property that is absent gives
  \<^verbatim>\<open>undefined\<close>, which is \<open>None\<close> here.
\<close>

datatype jsval = JNull | JBool bool | JNum int | JStr string | ServerTimestamp

type_synonym obj = "string \<rightharpoonup> jsval"

text \<open>
  Faults: what a rejected promise carries. \<open>TypeError\<close> is the engine's own fault on
  reading a property of null or undefined; \<open>NotFound\<close> is the "resource not found"
  condition of the specification (no function of the module raises it);
  \<open>GatewayFault\<close> is a failed call to the video platform; \<open>StoreFault\<close> is a
  failed call to the document store.
\<close>

datatype fault = TypeError string | NotFound | GatewayFault string | StoreFault string

section \<open>The constants of dbProperties\<close>

text \<open>
  Modelled from the spec: the module \<^verbatim>\<open>./dbProperties\<close> is not among the sources. The
  status names are those of section 4.2 (the scenario of section 8 writes \<^verbatim>\<open>"live"\<close> and
  \<^verbatim>\<open>"closed"\<close>), \<open>TS\<close> is the placeholder that the store replaces by the current time
  when it writes, the two timestamp objects stamp \<open>createdAt\<close>/\<open>updatedAt\<close>, and
  \<open>eventProps\<close> is the whitelist of Event attributes of section 3 (with \<open>name\<close>, which
  \<^verbatim>\<open>startArchive\<close> reads).
\<close>

definition NOT_STARTED :: jsval where "NOT_STARTED = JStr ''notStarted''"
definition PRESHOW :: jsval where "PRESHOW = JStr ''preshow''"
definition LIVE :: jsval where "LIVE = JStr ''live''"
definition CLOSED :: jsval where "CLOSED = JStr ''closed''"

definition TS :: jsval where "TS = ServerTimestamp"

definition timestampCreate :: obj where
  "timestampCreate = [''createdAt'' \<mapsto> TS, ''updatedAt'' \<mapsto> TS]"

definition timestampUpdate :: obj where
  "timestampUpdate = [''updatedAt'' \<mapsto> TS]"

definition eventProps :: "string list" where
  "eventProps =
     [''id'', ''adminId'', ''name'', ''fanUrl'', ''hostUrl'', ''celebrityUrl'',
      ''sessionId'', ''stageSessionId'', ''status'', ''archiveEvent'', ''composed'',
      ''archiveId'', ''rtmpUrl'', ''createdAt'', ''updatedAt'',
      ''showStartedAt'', ''showEndedAt'']"

section \<open>The Ramda functions the module uses\<close>

text \<open>
  \<^verbatim>\<open>R.pick\<close> keeps the listed properties that the object has. \<^verbatim>\<open>R.merge\<close> and
  \<^verbatim>\<open>R.mergeAll\<close> copy own enumerable properties left to right, so a later object wins.
  \<^verbatim>\<open>R.defaultTo d v\<close> is \<open>d\<close> when \<open>v\<close> is null or undefined, else \<open>v\<close>.
  \<^verbatim>\<open>R.evolve\<close> walks the properties of the object: a transformation is applied to a
  property the object has, and is not invoked for a property the object lacks.
\<close>

definition R_pick :: "string list \<Rightarrow> obj \<Rightarrow> obj" where
  "R_pick names ob = (\<lambda>k. if k \<in> set names then ob k else None)"

definition R_merge :: "obj \<Rightarrow> obj \<Rightarrow> obj" where
  "R_merge l r = l ++ r"

definition R_mergeAll :: "obj list \<Rightarrow> obj" where
  "R_mergeAll list = foldl (++) Map.empty list"

definition R_defaultTo :: "jsval \<Rightarrow> jsval \<Rightarrow> jsval" where
  "R_defaultTo d v = (if v = JNull then d else v)"

definition R_evolve :: "(string \<rightharpoonup> (jsval \<Rightarrow> jsval)) \<Rightarrow> obj \<Rightarrow> obj" where
  "R_evolve transformations ob =
     (\<lambda>k. case ob k of
            None \<Rightarrow> None
          | Some v \<Rightarrow> (case transformations k of None \<Rightarrow> Some v | Some f \<Rightarrow> Some (f v)))"

definition R_prop :: "string \<Rightarrow> obj \<Rightarrow> jsval option" where
  "R_prop p ob = ob p"

definition R_propEq :: "string \<Rightarrow> jsval \<Rightarrow> obj \<Rightarrow> bool" where
  "R_propEq name val ob = (ob name = Some val)"

definition R_find :: "(obj \<Rightarrow> bool) \<Rightarrow> obj list \<Rightarrow> obj option" where
  "R_find pred list = List.find pred list"

text \<open>
  The relational operator \<^verbatim>\<open><\<close> of JavaScript. Two strings are compared unit by unit;
  the server-timestamp placeholder is an object and compares as the string
  \<^verbatim>\<open>[object Object]\<close>. Any other pair is compared as numbers: \<^verbatim>\<open>undefined\<close> and the
  placeholder are NaN, null is 0, false and true are 0 and 1, and a comparison with NaN is
  false. Numbers are the integers, which a double holds exactly up to \<open>2^53\<close>; fractions
  and larger magnitudes are outside the model. A string is read as a number when it is
  empty (0) or a run of decimal digits; the other numeric literals of JavaScript (sign,
  fraction, exponent, radix prefix, surrounding white space) are read as NaN here.
\<close>

fun string_lt :: "string \<Rightarrow> string \<Rightarrow> bool" where
  "string_lt [] [] = False"
| "string_lt [] (y # ys) = True"
| "string_lt (x # xs) [] = False"
| "string_lt (x # xs) (y # ys) =
     (if (of_char x :: nat) < of_char y then True
      else if (of_char y :: nat) < of_char x then False
      else string_lt xs ys)"

fun parse_digits :: "nat \<Rightarrow> string \<Rightarrow> nat option" where
  "parse_digits acc [] = Some acc"
| "parse_digits acc (c # cs) =
     (let d = (of_char c :: nat)
      in if 48 \<le> d \<and> d \<le> 57 then parse_digits (10 * acc + (d - 48)) cs else None)"

fun to_number :: "jsval option \<Rightarrow> int option" where
  "to_number None = None"
| "to_number (Some JNull) = Some 0"
| "to_number (Some (JBool b)) = Some (if b then 1 else 0)"
| "to_number (Some (JNum n)) = Some n"
| "to_number (Some (JStr s)) = map_option int (parse_digits 0 s)"
| "to_number (Some ServerTimestamp) = None"

fun primitive_string :: "jsval option \<Rightarrow> string option" where
  "primitive_string (Some (JStr s)) = Some s"
| "primitive_string (Some ServerTimestamp) = Some ''[object Object]''"
| "primitive_string _ = None"

definition js_lt :: "jsval option \<Rightarrow> jsval option \<Rightarrow> bool" where
  "js_lt a b =
     (case (primitive_string a, primitive_string b) of
        (Some x, Some y) \<Rightarrow> string_lt x y
      | _ \<Rightarrow> (case (to_number a, to_number b) of
                (Some m, Some n) \<Rightarrow> m < n
              | _ \<Rightarrow> False))"

text \<open>
  \<^verbatim>\<open>R.ascend(fn)\<close> is the comparator \<^verbatim>\<open>aa < bb ? -1 : aa > bb ? 1 : 0\<close>.
\<close>

definition R_ascend :: "(obj \<Rightarrow> jsval option) \<Rightarrow> obj \<Rightarrow> obj \<Rightarrow> int" where
  "R_ascend fn a b =
     (let aa = fn a; bb = fn b in if js_lt aa bb then - 1 else if js_lt bb aa then 1 else 0)"

text \<open>
  \<^verbatim>\<open>R.sortWith(fns)\<close> copies the list and calls the engine's \<^verbatim>\<open>Array.prototype.sort\<close>
  on the copy, with the comparator that asks each function in turn until one answers
  non-zero. The engine's sort is not part of the sources: it is the parameter
  \<open>arraySort\<close>. ECMAScript fixes what it returns only for a consistent comparator, one
  that is reflexive and symmetric where it answers 0 and transitive where it answers 0,
  below 0 and above 0; for any other comparator the order is left to the engine. Of the
  specification the theorems use that the result has the elements of the array and that,
  for a consistent comparator, no element stands behind one it compares below.
\<close>

fun sortWith_compare :: "(obj \<Rightarrow> obj \<Rightarrow> int) list \<Rightarrow> obj \<Rightarrow> obj \<Rightarrow> int" where
  "sortWith_compare [] a b = 0"
| "sortWith_compare (f # fns) a b =
     (let result = f a b in if result = 0 then sortWith_compare fns a b else result)"

definition R_sortWith ::
  "((obj \<Rightarrow> obj \<Rightarrow> int) \<Rightarrow> obj list \<Rightarrow> obj list) \<Rightarrow> (obj \<Rightarrow> obj \<Rightarrow> int) list
     \<Rightarrow> obj list \<Rightarrow> obj list" where
  "R_sortWith arraySort fns list = arraySort (sortWith_compare fns) list"

definition consistent_comparator :: "(obj \<Rightarrow> obj \<Rightarrow> int) \<Rightarrow> obj set \<Rightarrow> bool" where
  "consistent_comparator cmp S =
     ((\<forall>a \<in> S. cmp a a = 0) \<and>
      (\<forall>a \<in> S. \<forall>b \<in> S. cmp a b = 0 \<longrightarrow> cmp b a = 0) \<and>
      (\<forall>a \<in> S. \<forall>b \<in> S. \<forall>c \<in> S. cmp a b = 0 \<and> cmp b c = 0 \<longrightarrow> cmp a c = 0) \<and>
      (\<forall>a \<in> S. \<forall>b \<in> S. \<forall>c \<in> S. cmp a b < 0 \<and> cmp b c < 0 \<longrightarrow> cmp a c < 0) \<and>
      (\<forall>a \<in> S. \<forall>b \<in> S. \<forall>c \<in> S. cmp a b > 0 \<and> cmp b c > 0 \<longrightarrow> cmp a c > 0))"

definition sorts_as_specified ::
  "((obj \<Rightarrow> obj \<Rightarrow> int) \<Rightarrow> obj list \<Rightarrow> obj list) \<Rightarrow> bool" where
  "sorts_as_specified arraySort =
     (\<forall>cmp xs. set (arraySort cmp xs) = set xs \<and>
        (consistent_comparator cmp (set xs) \<longrightarrow>
           sorted_wrt (\<lambda>a b. \<not> cmp b a < 0) (arraySort cmp xs)))"

text \<open>
  One engine: the insertion sort that V8 ran on arrays of up to ten elements. Each element
  in turn moves down past the sorted elements that compare above it (\<^verbatim>\<open>order > 0\<close>) and
  stops at the first that does not. The sorted part is held last element first.
\<close>

fun insert_element :: "(obj \<Rightarrow> obj \<Rightarrow> int) \<Rightarrow> obj \<Rightarrow> obj list \<Rightarrow> obj list" where
  "insert_element cmp element [] = [element]"
| "insert_element cmp element (tmp # below) =
     (if cmp tmp element > 0 then tmp # insert_element cmp element below
      else element # tmp # below)"

definition insertionSort :: "(obj \<Rightarrow> obj \<Rightarrow> int) \<Rightarrow> obj list \<Rightarrow> obj list" where
  "insertionSort cmp xs = rev (foldl (\<lambda>sorted element. insert_element cmp element sorted) [] xs)"

section \<open>The private helpers of the event module\<close>

definition setDefaults :: "obj \<Rightarrow> obj" where
  "setDefaults eventData =
     (let setDefaultProps =
            [''status'' \<mapsto> R_defaultTo NOT_STARTED,
             ''archiveEvent'' \<mapsto> R_defaultTo (JBool False),
             ''composed'' \<mapsto> R_defaultTo (JBool False)]
      in R_evolve setDefaultProps eventData)"

definition buildEvent :: "string list \<Rightarrow> obj \<Rightarrow> obj" where
  "buildEvent props eventData = setDefaults (R_pick props eventData)"

definition sortByCreatedAt ::
  "((obj \<Rightarrow> obj \<Rightarrow> int) \<Rightarrow> obj list \<Rightarrow> obj list) \<Rightarrow> obj list \<Rightarrow> obj list" where
  "sortByCreatedAt arraySort = R_sortWith arraySort [R_ascend (R_prop ''createdAt'')]"

definition filterByStatus :: "jsval \<Rightarrow> obj list \<Rightarrow> obj option" where
  "filterByStatus status = R_find (R_propEq ''status'' status)"

section \<open>The document store\<close>

text \<open>
  The world the module runs in: the children of \<^verbatim>\<open>events\<close> in the order the store
  enumerates them, the children of \<^verbatim>\<open>admins\<close>, the number of keys \<^verbatim>\<open>push()\<close> has
  generated, the answers the video platform will give to the coming \<^verbatim>\<open>createSession\<close>
  calls (\<open>None\<close> is a failed call; when the list is used up the call fails), the server's
  clock, and the log of the calls made to the store and to the platform, oldest first.

  Every function of the module is \<^verbatim>\<open>async\<close> and is modelled by the value its promise
  settles to together with the world it leaves. The store applies the operations of one
  client in the order the client issues them, so a write takes effect where it is issued.
  Ids are store keys; the path checks of the store's client on strings, and failures of
  the store itself, are not modelled.
\<close>

datatype otRole = MODERATOR | PUBLISHER

datatype call =
    DbPush
  | DbSet string obj
  | DbUpdate string obj
  | DbOnceEvent string
  | DbOnceEventsBy string jsval
  | DbOnceAdmin string
  | OtCreateSession "jsval option" "jsval option"
  | OtCreateToken "jsval option" "jsval option" "jsval option" otRole string

record world =
  db_events :: "(string \<times> obj) list"
  db_admins :: "string \<rightharpoonup> obj"
  pushed :: nat
  sessionAnswers :: "string option list"
  serverTime :: int
  calls :: "call list"

text \<open>
  What the store keeps of a written value: a null removes the child, the server-timestamp
  placeholder becomes the server's time, anything else is kept.
\<close>

definition firebase_value :: "int \<Rightarrow> jsval \<Rightarrow> jsval option" where
  "firebase_value t v =
     (if v = JNull then None else if v = ServerTimestamp then Some (JNum t) else Some v)"

text \<open>A location with no properties does not exist: its value is null.\<close>

definition child :: "string \<Rightarrow> (string \<times> obj) list \<Rightarrow> obj" where
  "child key kvs = (case map_of kvs key of None \<Rightarrow> Map.empty | Some ob \<Rightarrow> ob)"

definition put_child :: "string \<Rightarrow> obj \<Rightarrow> (string \<times> obj) list \<Rightarrow> (string \<times> obj) list" where
  "put_child key ob kvs =
     (if ob = Map.empty then filter (\<lambda>kv. fst kv \<noteq> key) kvs
      else if key \<in> fst ` set kvs then map (\<lambda>kv. if fst kv = key then (key, ob) else kv) kvs
      else kvs @ [(key, ob)])"

definition pushKey :: "nat \<Rightarrow> string" where
  "pushKey n = CHR ''-'' # replicate n (CHR ''k'')"

definition db_push :: "world \<Rightarrow> string \<times> world" where
  "db_push w = (pushKey (pushed w), w\<lparr>pushed := Suc (pushed w), calls := calls w @ [DbPush]\<rparr>)"

definition db_set :: "string \<Rightarrow> obj \<Rightarrow> world \<Rightarrow> world" where
  "db_set key val w =
     w\<lparr>db_events :=
         put_child key
           (\<lambda>k. case val k of None \<Rightarrow> None | Some v \<Rightarrow> firebase_value (serverTime w) v)
           (db_events w),
       calls := calls w @ [DbSet key val]\<rparr>"

definition db_update :: "string \<Rightarrow> obj \<Rightarrow> world \<Rightarrow> world" where
  "db_update key val w =
     w\<lparr>db_events :=
         put_child key
           (\<lambda>k. case val k of
                  None \<Rightarrow> child key (db_events w) k
                | Some v \<Rightarrow> firebase_value (serverTime w) v)
           (db_events w),
       calls := calls w @ [DbUpdate key val]\<rparr>"

definition db_once_event :: "string \<Rightarrow> world \<Rightarrow> obj option \<times> world" where
  "db_once_event key w =
     (let ob = child key (db_events w)
      in (if ob = Map.empty then None else Some ob, w\<lparr>calls := calls w @ [DbOnceEvent key]\<rparr>))"

text \<open>
  \<^verbatim>\<open>orderByChild(field).equalTo(value)\<close>: the children whose field has the value; a null
  value selects the children that lack the field.
\<close>

definition db_once_events_by :: "string \<Rightarrow> jsval \<Rightarrow> world \<Rightarrow> (string \<times> obj) list \<times> world" where
  "db_once_events_by field val w =
     (filter (\<lambda>kv. case snd kv field of None \<Rightarrow> val = JNull | Some x \<Rightarrow> x = val) (db_events w),
      w\<lparr>calls := calls w @ [DbOnceEventsBy field val]\<rparr>)"

definition Object_values :: "(string \<times> obj) list \<Rightarrow> obj list" where
  "Object_values snapshot = map snd snapshot"

section \<open>The admin directory\<close>

text \<open>
  \<^verbatim>\<open>Number.prototype.toString\<close> on an integer of magnitude below \<open>10^21\<close>: its decimal
  digits, with a minus sign when it is negative.
\<close>

fun decimal_digits :: "nat \<Rightarrow> string" where
  "decimal_digits n =
     (if n < 10 then [''0123456789'' ! n]
      else decimal_digits (n div 10) @ [''0123456789'' ! (n mod 10)])"

definition Number_toString :: "int \<Rightarrow> string" where
  "Number_toString n =
     (if n < 0 then CHR ''-'' # decimal_digits (nat (- n)) else decimal_digits (nat n))"

text \<open>
  The path that \<^verbatim>\<open>child(uid)\<close> of the store's client addresses: a string as it is, a
  number printed; for any other argument \<^verbatim>\<open>child\<close> throws. The client's checks on the
  characters of a string are not modelled.
\<close>

fun child_path :: "jsval option \<Rightarrow> string option" where
  "child_path (Some (JStr s)) = Some s"
| "child_path (Some (JNum n)) = Some (Number_toString n)"
| "child_path _ = None"

text \<open>
  \<^verbatim>\<open>getAdmin\<close> of \<^verbatim>\<open>src/unnamed/part_002\<close>: the admin record, or null when there is none.
  Its argument is a property read, which may be undefined: when \<^verbatim>\<open>child(uid)\<close> throws,
  it does so inside the promise's executor and the promise is rejected.
\<close>

definition getAdmin :: "jsval option \<Rightarrow> world \<Rightarrow> (fault + obj option) \<times> world" where
  "getAdmin uid w =
     (case child_path uid of
        Some s \<Rightarrow> (Inr (db_admins w s), w\<lparr>calls := calls w @ [DbOnceAdmin s]\<rparr>)
      | None \<Rightarrow> (Inl (StoreFault ''child failed: invalid path''), w))"

section \<open>The video platform gateway\<close>

text \<open>
  Modelled from the spec: the module \<^verbatim>\<open>./opentok\<close> is not among the sources. By section 4.3
  \<^verbatim>\<open>createSession(apiKey, secret)\<close> gives a new session descriptor with a session id or
  fails, and \<^verbatim>\<open>createToken(apiKey, secret, sessionId, {role, data})\<close> gives a token scoped
  to the session that carries the role and the payload. A token is the term of what it
  was issued for. \<^verbatim>\<open>roles.FAN\<close> of \<^verbatim>\<open>./auth\<close> is the user type \<^verbatim>\<open>"fan"\<close> of section 4.4.
\<close>

record ot_session =
  sessionId :: jsval

record token_options =
  opt_role :: otRole
  opt_data :: string

datatype token = Token "jsval option" "jsval option" "jsval option" otRole string

definition roles_FAN :: string where "roles_FAN = ''fan''"

definition OpenTok_createSession ::
  "jsval option \<Rightarrow> jsval option \<Rightarrow> world \<Rightarrow> (fault + ot_session) \<times> world" where
  "OpenTok_createSession apiKey secret w =
     (let w' = w\<lparr>sessionAnswers := tl (sessionAnswers w),
                  calls := calls w @ [OtCreateSession apiKey secret]\<rparr>
      in case sessionAnswers w of
           Some sid # _ \<Rightarrow> (Inr \<lparr>sessionId = JStr sid\<rparr>, w')
         | _ \<Rightarrow> (Inl (GatewayFault ''createSession failed''), w'))"

definition OpenTok_createToken ::
  "jsval option \<Rightarrow> jsval option \<Rightarrow> jsval option \<Rightarrow> token_options \<Rightarrow> world \<Rightarrow> token \<times> world" where
  "OpenTok_createToken apiKey secret sid options w =
     (Token apiKey secret sid (opt_role options) (opt_data options),
      w\<lparr>calls := calls w @ [OtCreateToken apiKey secret sid (opt_role options) (opt_data options)]\<rparr>)"

section \<open>The operations of the event module\<close>

text \<open>
  \<^verbatim>\<open>JSON.stringify\<close> of a string: in quotes, with the quote and the backslash escaped by
  a backslash, the control characters 8, 9, 10, 12 and 13 written \<^verbatim>\<open>\b \t \n \f \r\<close> and
  the other characters below 32 written \<^verbatim>\<open>\u00\<close> and two hexadecimal digits.
\<close>

definition json_char :: "char \<Rightarrow> string" where
  "json_char c =
     (let n = (of_char c :: nat)
      in if n = 34 then [CHR 0x5C, CHR 0x22]
         else if n = 92 then [CHR 0x5C, CHR 0x5C]
         else if n = 8 then [CHR 0x5C, CHR ''b'']
         else if n = 9 then [CHR 0x5C, CHR ''t'']
         else if n = 10 then [CHR 0x5C, CHR ''n'']
         else if n = 12 then [CHR 0x5C, CHR ''f'']
         else if n = 13 then [CHR 0x5C, CHR ''r'']
         else if n < 32
           then [CHR 0x5C, CHR ''u'', CHR ''0'', CHR ''0'',
                 ''0123456789abcdef'' ! (n div 16), ''0123456789abcdef'' ! (n mod 16)]
         else [c])"

definition JSON_stringify_string :: "string \<Rightarrow> string" where
  "JSON_stringify_string s = CHR 0x22 # concat (map json_char s) @ [CHR 0x22]"

definition buildOtData :: "string \<Rightarrow> string" where
  \<open>buildOtData userType = ''{"userType":'' @ JSON_stringify_string userType @ ''}''\<close>

definition getEvents :: "jsval option \<Rightarrow> world \<Rightarrow> (string \<times> obj) list option \<times> world" where
  "getEvents adminId' w =
     (let adminId = (case adminId' of None \<Rightarrow> JNull | Some a \<Rightarrow> a)
      in case db_once_events_by ''adminId'' adminId w of
           (snapshot, w1) \<Rightarrow> (if snapshot = [] then None else Some snapshot, w1))"

definition getMostRecentEvent ::
  "((obj \<Rightarrow> obj \<Rightarrow> int) \<Rightarrow> obj list \<Rightarrow> obj list) \<Rightarrow> jsval option \<Rightarrow> world
     \<Rightarrow> obj option \<times> world" where
  "getMostRecentEvent arraySort adminId w =
     (case getEvents adminId w of
        (Some snapshot, w1) \<Rightarrow>
          (let evs = sortByCreatedAt arraySort (Object_values snapshot)
           in (case filterByStatus LIVE evs of
                 Some e \<Rightarrow> Some e
               | None \<Rightarrow> filterByStatus PRESHOW evs, w1))
      | (None, w1) \<Rightarrow> (None, w1))"

definition getEvent :: "string \<Rightarrow> world \<Rightarrow> obj option \<times> world" where
  "getEvent ident w = db_once_event ident w"

definition getEventByKey :: "string \<Rightarrow> string \<Rightarrow> string option \<Rightarrow> world \<Rightarrow> obj option \<times> world" where
  "getEventByKey adminId slug field' w =
     (let field = (case field' of None \<Rightarrow> ''fanUrl'' | Some f \<Rightarrow> f)
      in case db_once_events_by field (JStr slug) w of
           (snapshot, w1) \<Rightarrow>
             (if length snapshot \<noteq> 0
              then (let evs = Object_values snapshot
                    in (R_find (R_propEq ''adminId'' (JStr adminId)) evs, w1))
              else (None, w1)))"

definition saveEvent :: "obj \<Rightarrow> world \<Rightarrow> obj option \<times> world" where
  "saveEvent data w =
     (case db_push w of
        (ident, w1) \<Rightarrow>
          (let w2 = db_set ident
                      (buildEvent eventProps
                         (R_mergeAll [timestampCreate, [''id'' \<mapsto> JStr ident], data])) w1
           in getEvent ident w2))"

text \<open>
  \<^verbatim>\<open>getSessions\<close> returns either the object with the two session ids or, from its
  \<^verbatim>\<open>catch\<close> block, an \<^verbatim>\<open>Error\<close> object: the error is returned, not thrown. An
  \<^verbatim>\<open>Error\<close> object has no own enumerable property (its message is not enumerable), so
  a merge copies nothing from it.
\<close>

datatype sessions_result = Sessions obj | ErrorObject string

fun ownProps :: "sessions_result \<Rightarrow> obj" where
  "ownProps (Sessions ob) = ob"
| "ownProps (ErrorObject msg) = Map.empty"

text \<open>
  The local \<^verbatim>\<open>createSession\<close> of \<^verbatim>\<open>getSessions\<close> destructures the admin, which throws
  when the admin is null.
\<close>

definition createSession :: "obj option \<Rightarrow> world \<Rightarrow> (fault + ot_session) \<times> world" where
  "createSession admin w =
     (case admin of
        None \<Rightarrow> (Inl (TypeError ''Cannot destructure property otApiKey of null''), w)
      | Some a \<Rightarrow> OpenTok_createSession (a ''otApiKey'') (a ''otSecret'') w)"

definition getSessions :: "obj option \<Rightarrow> world \<Rightarrow> sessions_result \<times> world" where
  "getSessions admin w =
     (case createSession admin w of
        (Inl error, w1) \<Rightarrow> (ErrorObject ''error creating sessions'', w1)
      | (Inr session, w1) \<Rightarrow>
          (case createSession admin w1 of
             (Inl error, w2) \<Rightarrow> (ErrorObject ''error creating sessions'', w2)
           | (Inr stageSession, w2) \<Rightarrow>
               (Sessions [''sessionId'' \<mapsto> sessionId session,
                          ''stageSessionId'' \<mapsto> sessionId stageSession], w2)))"

definition create :: "obj \<Rightarrow> world \<Rightarrow> (fault + obj option) \<times> world" where
  "create data w =
     (case getAdmin (data ''adminId'') w of
        (Inl e, w1) \<Rightarrow> (Inl e, w1)
      | (Inr admin, w1) \<Rightarrow>
          (case getSessions admin w1 of
             (sessions, w2) \<Rightarrow>
               (let status = NOT_STARTED;
                    rtmpUrl = JStr [];
                    defaultValues = [''status'' \<mapsto> status, ''rtmpUrl'' \<mapsto> rtmpUrl]
                in case saveEvent (R_mergeAll [defaultValues, data, ownProps sessions]) w2 of
                     (saved, w3) \<Rightarrow> (Inr saved, w3))))"

definition update :: "string \<Rightarrow> obj \<Rightarrow> world \<Rightarrow> obj option \<times> world" where
  "update ident data w =
     (let w1 = db_update ident (buildEvent eventProps (R_merge timestampUpdate data)) w
      in getEvent ident w1)"

text \<open>
  \<^verbatim>\<open>changeStatus\<close> calls \<^verbatim>\<open>update\<close> without awaiting it and then reads the event. The
  write of \<^verbatim>\<open>update\<close> is issued during the call, before the read, and what
  \<^verbatim>\<open>update\<close> returns is dropped.
\<close>

definition changeStatus :: "string \<Rightarrow> obj \<Rightarrow> world \<Rightarrow> obj option \<times> world" where
  "changeStatus ident data w =
     (let updateData =
            (if data ''status'' = Some LIVE then data(''showStartedAt'' \<mapsto> TS)
             else if data ''status'' = Some CLOSED then data(''showEndedAt'' \<mapsto> TS)
             else data)
      in case update ident updateData w of
           (dropped, w1) \<Rightarrow> getEvent ident w1)"

text \<open>
  The result of an \<^verbatim>\<open>async\<close> function that a caller does not await is a promise
  object. A promise has no property of its own named after a field of the value it will
  settle to: reading one gives \<^verbatim>\<open>undefined\<close>.
\<close>

datatype 'a promise = Promise 'a

definition promise_property :: "'a promise \<Rightarrow> string \<Rightarrow> token option" where
  "promise_property p name = None"

record 'a fan_tokens =
  backstageToken :: 'a
  stageToken :: 'a

record 'a fan_credentials = "'a fan_tokens" +
  apiKey :: "jsval option"
  event :: obj
  httpSupport :: "jsval option"

definition createTokensFan ::
  "jsval option \<Rightarrow> jsval option \<Rightarrow> jsval option \<Rightarrow> jsval option \<Rightarrow> world
     \<Rightarrow> token fan_tokens promise \<times> world" where
  "createTokensFan otApiKey otSecret stageSessionId sessionId' w =
     (let options = \<lparr>opt_role = PUBLISHER, opt_data = buildOtData roles_FAN\<rparr>
      in case OpenTok_createToken otApiKey otSecret sessionId' options w of
           (backstage, w1) \<Rightarrow>
             (case OpenTok_createToken otApiKey otSecret stageSessionId options w1 of
                (stage, w2) \<Rightarrow>
                  (Promise \<lparr>backstageToken = backstage, stageToken = stage\<rparr>, w2)))"

definition createTokenFan ::
  "string \<Rightarrow> string \<Rightarrow> world \<Rightarrow> (fault + token option fan_credentials) \<times> world" where
  "createTokenFan adminId slug w =
     (case getEventByKey adminId slug (Some ''fanUrl'') w of
        (None, w1) \<Rightarrow> (Inl (TypeError ''Cannot read property adminId of null''), w1)
      | (Some ev, w1) \<Rightarrow>
          (case getAdmin (ev ''adminId'') w1 of
             (Inl e, w2) \<Rightarrow> (Inl e, w2)
           | (Inr None, w2) \<Rightarrow>
               (Inl (TypeError ''Cannot destructure property otApiKey of null''), w2)
           | (Inr (Some admin), w2) \<Rightarrow>
               (let otApiKey = admin ''otApiKey'';
                    otSecret = admin ''otSecret'';
                    httpSupport' = admin ''httpSupport''
                in case createTokensFan otApiKey otSecret (ev ''stageSessionId'')
                          (ev ''sessionId'') w2 of
                     (pending, w3) \<Rightarrow>
                       (Inr \<lparr>backstageToken = promise_property pending ''backstageToken'',
                             stageToken = promise_property pending ''stageToken'',
                             apiKey = otApiKey,
                             event = ev,
                             httpSupport = httpSupport'\<rparr>, w3))))"

section \<open>Sample data\<close>

text \<open>
  One stored event of admin \<open>a1\<close>, the admin's record, and a world that holds them; the
  platform is ready to answer two \<^verbatim>\<open>createSession\<close> calls.
\<close>

definition sampleEvent :: obj where
  "sampleEvent =
     [''id'' \<mapsto> JStr ''e1'', ''adminId'' \<mapsto> JStr ''a1'', ''fanUrl'' \<mapsto> JStr ''alpha'',
      ''status'' \<mapsto> JStr ''notStarted'', ''sessionId'' \<mapsto> JStr ''s1'',
      ''stageSessionId'' \<mapsto> JStr ''s2'', ''createdAt'' \<mapsto> JNum 10]"

definition sampleAdmin :: obj where
  "sampleAdmin =
     [''otApiKey'' \<mapsto> JStr ''key'', ''otSecret'' \<mapsto> JStr ''secret'',
      ''httpSupport'' \<mapsto> JBool False]"

definition sampleWorld :: world where
  "sampleWorld =
     \<lparr>db_events = [(''e1'', sampleEvent)],
      db_admins = [''a1'' \<mapsto> sampleAdmin],
      pushed = 0,
      sessionAnswers = [Some ''s3'', Some ''s4''],
      serverTime = 1000,
      calls = []\<rparr>"

text \<open>A payload that names the show and its admin and carries no other field.\<close>

definition bareEvent :: obj where
  "bareEvent = [''name'' \<mapsto> JStr ''show'', ''adminId'' \<mapsto> JStr ''a1'']"

text \<open>A payload with a null status and a key that is no Event attribute.\<close>

definition nullStatusEvent :: obj where
  "nullStatusEvent = [''status'' \<mapsto> JNull, ''bogus'' \<mapsto> JNum 1]"

text \<open>
  The stored events of an admin, in the store's order: those whose \<open>adminId\<close> is the
  admin's id. The events of the null id, which stands for no id given, are those that
  have no \<open>adminId\<close>.
\<close>

definition ownedBy :: "jsval \<Rightarrow> obj \<Rightarrow> bool" where
  "ownedBy adminId e = (case e ''adminId'' of None \<Rightarrow> adminId = JNull | Some x \<Rightarrow> x = adminId)"

definition ownedEvents :: "jsval \<Rightarrow> world \<Rightarrow> obj list" where
  "ownedEvents adminId w = filter (ownedBy adminId) (map snd (db_events w))"

text \<open>
  A world with four events: of admin \<open>a1\<close> a live event created at 20, a live event
  created at 10 and a preshow event created at 5, and of admin \<open>a2\<close> a live event
  created at 1.
\<close>

definition live20 :: obj where
  "live20 = [''adminId'' \<mapsto> JStr ''a1'', ''status'' \<mapsto> JStr ''live'', ''createdAt'' \<mapsto> JNum 20]"

definition live10 :: obj where
  "live10 = [''adminId'' \<mapsto> JStr ''a1'', ''status'' \<mapsto> JStr ''live'', ''createdAt'' \<mapsto> JNum 10]"

definition preshow5 :: obj where
  "preshow5 =
     [''adminId'' \<mapsto> JStr ''a1'', ''status'' \<mapsto> JStr ''preshow'', ''createdAt'' \<mapsto> JNum 5]"

definition foreignLive1 :: obj where
  "foreignLive1 =
     [''adminId'' \<mapsto> JStr ''a2'', ''status'' \<mapsto> JStr ''live'', ''createdAt'' \<mapsto> JNum 1]"

definition fourEventsWorld :: world where
  "fourEventsWorld =
     \<lparr>db_events = [(''e1'', live20), (''e2'', foreignLive1), (''e3'', live10), (''e4'', preshow5)],
      db_admins = [''a1'' \<mapsto> sampleAdmin],
      pushed = 4,
      sessionAnswers = [],
      serverTime = 1000,
      calls = []\<rparr>"

text \<open>
  A world where admin \<open>a1\<close> has, between the live event created at 20 and the live event
  created at 10, a closed event that has lost its \<open>createdAt\<close>.
\<close>

definition closedUnstamped :: obj where
  "closedUnstamped = [''adminId'' \<mapsto> JStr ''a1'', ''status'' \<mapsto> JStr ''closed'']"

definition unstampedWorld :: world where
  "unstampedWorld =
     \<lparr>db_events = [(''e1'', live20), (''e2'', closedUnstamped), (''e3'', live10)],
      db_admins = [''a1'' \<mapsto> sampleAdmin],
      pushed = 3,
      sessionAnswers = [],
      serverTime = 1000,
      calls = []\<rparr>"

text \<open>
  A world whose event \<open>e1\<close> is live and has both show timestamps set.
\<close>

definition stampedEvent :: obj where
  "stampedEvent =
     [''id'' \<mapsto> JStr ''e1'', ''adminId'' \<mapsto> JStr ''a1'', ''status'' \<mapsto> JStr ''live'',
      ''showStartedAt'' \<mapsto> JNum 500, ''showEndedAt'' \<mapsto> JNum 700]"

definition stampedWorld :: world where
  "stampedWorld = sampleWorld\<lparr>db_events := [(''e1'', stampedEvent)]\<rparr>"

text \<open>The sample world with a platform whose next \<^verbatim>\<open>createSession\<close> call fails.\<close>

definition failingPlatformWorld :: world where
  "failingPlatformWorld = sampleWorld\<lparr>sessionAnswers := [None]\<rparr>"

text \<open>A payload that brings session ids, a status and a stream url of its own.\<close>

definition ownSessionsEvent :: obj where
  "ownSessionsEvent =
     [''adminId'' \<mapsto> JStr ''a1'', ''name'' \<mapsto> JStr ''show'',
      ''sessionId'' \<mapsto> JStr ''mine'', ''stageSessionId'' \<mapsto> JStr ''mine'',
      ''status'' \<mapsto> JStr ''preshow'', ''rtmpUrl'' \<mapsto> JStr ''rtmp://x'']"



section \<open>Facts about the store and the helpers\<close>

lemma child_put_child_same: "child key (put_child key ob kvs) = ob"
proof (cases "ob = Map.empty")
  case True
  have "map_of (filter (\<lambda>kv. fst kv \<noteq> key) kvs) key = None"
    by (induction kvs) auto
  with True show ?thesis by (simp add: child_def put_child_def)
next
  case False
  show ?thesis
  proof (cases "key \<in> fst ` set kvs")
    case True
    then have "map_of (map (\<lambda>kv. if fst kv = key then (key, ob) else kv) kvs) key = Some ob"
      by (induction kvs) auto
    with False True show ?thesis by (simp add: child_def put_child_def)
  next
    case nk: False
    then have "map_of kvs key = None" by (simp add: map_of_eq_None_iff)
    with False nk show ?thesis by (simp add: child_def put_child_def map_add_def)
  qed
qed

lemma child_put_child_other:
  assumes "k' \<noteq> key"
  shows "child k' (put_child key ob kvs) = child k' kvs"
proof -
  have a: "map_of (filter (\<lambda>kv. fst kv \<noteq> key) kvs) k' = map_of kvs k'"
    using assms by (induction kvs) auto
  have b: "map_of (map (\<lambda>kv. if fst kv = key then (key, ob) else kv) kvs) k' = map_of kvs k'"
    using assms by (induction kvs) auto
  have c: "map_of (kvs @ [(key, ob)]) k' = map_of kvs k'"
    using assms by (induction kvs) auto
  show ?thesis
    unfolding child_def put_child_def using a b c by (simp del: map_of_append)
qed

lemma buildEvent_apply:
  "buildEvent eventProps ob k =
     (if k \<in> set eventProps
      then (case ob k of
              None \<Rightarrow> None
            | Some v \<Rightarrow>
                Some (if k = ''status'' then R_defaultTo NOT_STARTED v
                      else if k = ''archiveEvent'' \<or> k = ''composed'' then R_defaultTo (JBool False) v
                      else v))
      else None)"
  by (simp add: buildEvent_def setDefaults_def R_evolve_def R_pick_def split: option.splits)

lemma update_calls:
  "calls (snd (update ident data w)) =
     calls w @ [DbUpdate ident (buildEvent eventProps (R_merge timestampUpdate data)),
                DbOnceEvent ident]"
  by (simp add: update_def getEvent_def db_once_event_def db_update_def Let_def)

lemma update_stored:
  "child ident (db_events (snd (update ident data w))) k =
     (case buildEvent eventProps (R_merge timestampUpdate data) k of
        None \<Rightarrow> child ident (db_events w) k
      | Some v \<Rightarrow> firebase_value (serverTime w) v)"
  by (simp add: update_def getEvent_def db_once_event_def db_update_def Let_def
      child_put_child_same)

lemma update_serverTime: "serverTime (snd (update ident data w)) = serverTime w"
  by (simp add: update_def getEvent_def db_once_event_def db_update_def Let_def)

lemma changeStatus_world:
  "snd (changeStatus ident data w) =
     snd (getEvent ident (snd (update ident
       (if data ''status'' = Some LIVE then data(''showStartedAt'' \<mapsto> TS)
        else if data ''status'' = Some CLOSED then data(''showEndedAt'' \<mapsto> TS)
        else data) w)))"
  by (simp add: changeStatus_def Let_def split: prod.splits)

lemma getEvent_world: "snd (getEvent ident w) = w\<lparr>calls := calls w @ [DbOnceEvent ident]\<rparr>"
  by (simp add: getEvent_def db_once_event_def Let_def)

lemma getEvent_value:
  "fst (getEvent ident w) =
     (if child ident (db_events w) = Map.empty then None else Some (child ident (db_events w)))"
  by (simp add: getEvent_def db_once_event_def Let_def)

lemma payload_apply:
  "buildEvent eventProps (R_merge timestampUpdate data) k =
     (if k \<in> set eventProps
      then (case data k of
              None \<Rightarrow> (if k = ''updatedAt'' then Some TS else None)
            | Some v \<Rightarrow>
                Some (if k = ''status'' then R_defaultTo NOT_STARTED v
                      else if k = ''archiveEvent'' \<or> k = ''composed'' then R_defaultTo (JBool False) v
                      else v))
      else None)"
proof -
  have u: "''updatedAt'' \<in> set eventProps" by (simp add: eventProps_def)
  show ?thesis
  proof (cases "k = ''updatedAt''")
    case True
    then show ?thesis using u
      by (simp add: buildEvent_apply R_merge_def timestampUpdate_def map_add_def
          split: option.splits)
  next
    case False
    then show ?thesis
      by (simp add: buildEvent_apply R_merge_def timestampUpdate_def map_add_def
          split: option.splits)
  qed
qed



lemma eventProps_mem:
  "''id'' \<in> set eventProps" "''adminId'' \<in> set eventProps"
  "''sessionId'' \<in> set eventProps" "''stageSessionId'' \<in> set eventProps"
  "''status'' \<in> set eventProps" "''archiveEvent'' \<in> set eventProps"
  "''composed'' \<in> set eventProps" "''rtmpUrl'' \<in> set eventProps"
  "''createdAt'' \<in> set eventProps" "''updatedAt'' \<in> set eventProps"
  "''showStartedAt'' \<in> set eventProps" "''showEndedAt'' \<in> set eventProps"
  by (simp_all add: eventProps_def)

section \<open>Status changes and their timestamps\<close>

text \<open>
  Claim C1. \<^verbatim>\<open>changeStatus\<close> with status \<open>LIVE\<close> is the update of the payload with
  \<open>showStartedAt = TS\<close> added: one update whose payload carries the status and the
  stamp, so the stored record gets the status and the server's time as \<open>showStartedAt\<close>,
  while \<open>showEndedAt\<close> is neither added to the payload nor changed in the store. With
  status \<open>CLOSED\<close> the same holds with the two timestamps exchanged. With any other
  status \<^verbatim>\<open>changeStatus\<close> is the update of the payload as it is: the status goes into the
  payload and into the store unchanged, \<open>showStartedAt\<close> and \<open>showEndedAt\<close> are what
  the caller gave, and the stored ones stay when the caller gave none. A null in the place
  of the status is no status: \<^verbatim>\<open>update\<close> writes the default for it.
\<close>

theorem changeStatus_stamps:
  "(data ''status'' = Some LIVE \<longrightarrow>
      changeStatus ident data w =
        getEvent ident (snd (update ident (data(''showStartedAt'' \<mapsto> TS)) w)) \<and>
      (\<exists>payload.
          calls (snd (changeStatus ident data w)) =
            calls w @ [DbUpdate ident payload, DbOnceEvent ident, DbOnceEvent ident] \<and>
          payload ''status'' = Some LIVE \<and>
          payload ''showStartedAt'' = Some TS \<and>
          payload ''showEndedAt'' = data ''showEndedAt'') \<and>
      child ident (db_events (snd (changeStatus ident data w))) ''status'' = Some LIVE \<and>
      child ident (db_events (snd (changeStatus ident data w))) ''showStartedAt'' =
        Some (JNum (serverTime w)) \<and>
      (data ''showEndedAt'' = None \<longrightarrow>
         child ident (db_events (snd (changeStatus ident data w))) ''showEndedAt'' =
           child ident (db_events w) ''showEndedAt'')) \<and>
   (data ''status'' = Some CLOSED \<longrightarrow>
      changeStatus ident data w =
        getEvent ident (snd (update ident (data(''showEndedAt'' \<mapsto> TS)) w)) \<and>
      (\<exists>payload.
          calls (snd (changeStatus ident data w)) =
            calls w @ [DbUpdate ident payload, DbOnceEvent ident, DbOnceEvent ident] \<and>
          payload ''status'' = Some CLOSED \<and>
          payload ''showEndedAt'' = Some TS \<and>
          payload ''showStartedAt'' = data ''showStartedAt'') \<and>
      child ident (db_events (snd (changeStatus ident data w))) ''status'' = Some CLOSED \<and>
      child ident (db_events (snd (changeStatus ident data w))) ''showEndedAt'' =
        Some (JNum (serverTime w)) \<and>
      (data ''showStartedAt'' = None \<longrightarrow>
         child ident (db_events (snd (changeStatus ident data w))) ''showStartedAt'' =
           child ident (db_events w) ''showStartedAt'')) \<and>
   (data ''status'' \<noteq> Some LIVE \<and> data ''status'' \<noteq> Some CLOSED \<longrightarrow>
      changeStatus ident data w = getEvent ident (snd (update ident data w)) \<and>
      (\<exists>payload.
          calls (snd (changeStatus ident data w)) =
            calls w @ [DbUpdate ident payload, DbOnceEvent ident, DbOnceEvent ident] \<and>
          (\<forall>v. data ''status'' = Some v \<and> v \<noteq> JNull \<longrightarrow> payload ''status'' = Some v) \<and>
          (data ''status'' = None \<longrightarrow> payload ''status'' = None) \<and>
          (data ''status'' = Some JNull \<longrightarrow> payload ''status'' = Some NOT_STARTED) \<and>
          payload ''showStartedAt'' = data ''showStartedAt'' \<and>
          payload ''showEndedAt'' = data ''showEndedAt'') \<and>
      (\<forall>v. data ''status'' = Some v \<and> v \<noteq> JNull \<longrightarrow>
         child ident (db_events (snd (changeStatus ident data w))) ''status'' =
           firebase_value (serverTime w) v) \<and>
      (data ''status'' = None \<longrightarrow>
         child ident (db_events (snd (changeStatus ident data w))) ''status'' =
           child ident (db_events w) ''status'') \<and>
      (data ''showStartedAt'' = None \<longrightarrow>
         child ident (db_events (snd (changeStatus ident data w))) ''showStartedAt'' =
           child ident (db_events w) ''showStartedAt'') \<and>
      (data ''showEndedAt'' = None \<longrightarrow>
         child ident (db_events (snd (changeStatus ident data w))) ''showEndedAt'' =
           child ident (db_events w) ''showEndedAt''))"
proof (intro conjI impI)
  assume live: "data ''status'' = Some LIVE"
  let ?d = "data(''showStartedAt'' \<mapsto> TS)"
  let ?p = "buildEvent eventProps (R_merge timestampUpdate ?d)"
  show same: "changeStatus ident data w = getEvent ident (snd (update ident ?d w))"
    using live by (simp add: changeStatus_def Let_def split: prod.splits)
  have w': "snd (changeStatus ident data w) = snd (getEvent ident (snd (update ident ?d w)))"
    by (simp add: same)
  have "calls (snd (changeStatus ident data w)) =
          calls w @ [DbUpdate ident ?p, DbOnceEvent ident, DbOnceEvent ident]"
    by (simp add: w' getEvent_world update_calls)
  moreover have "?p ''status'' = Some LIVE"
    using live by (simp add: payload_apply eventProps_mem R_defaultTo_def LIVE_def)
  moreover have "?p ''showStartedAt'' = Some TS"
    by (simp add: payload_apply eventProps_mem)
  moreover have "?p ''showEndedAt'' = data ''showEndedAt''"
    by (simp add: payload_apply eventProps_mem split: option.splits)
  ultimately show "\<exists>payload.
          calls (snd (changeStatus ident data w)) =
            calls w @ [DbUpdate ident payload, DbOnceEvent ident, DbOnceEvent ident] \<and>
          payload ''status'' = Some LIVE \<and>
          payload ''showStartedAt'' = Some TS \<and>
          payload ''showEndedAt'' = data ''showEndedAt''"
    by blast
  show "child ident (db_events (snd (changeStatus ident data w))) ''status'' = Some LIVE"
    using live
    by (simp add: w' getEvent_world update_stored payload_apply eventProps_mem
        firebase_value_def R_defaultTo_def LIVE_def)
  show "child ident (db_events (snd (changeStatus ident data w))) ''showStartedAt'' =
        Some (JNum (serverTime w))"
    by (simp add: w' getEvent_world update_stored payload_apply eventProps_mem
        firebase_value_def TS_def)
  show "child ident (db_events (snd (changeStatus ident data w))) ''showEndedAt'' =
           child ident (db_events w) ''showEndedAt''" if "data ''showEndedAt'' = None"
    using that by (simp add: w' getEvent_world update_stored payload_apply eventProps_mem)
next
  assume closed: "data ''status'' = Some CLOSED"
  let ?d = "data(''showEndedAt'' \<mapsto> TS)"
  let ?p = "buildEvent eventProps (R_merge timestampUpdate ?d)"
  show same: "changeStatus ident data w = getEvent ident (snd (update ident ?d w))"
    using closed by (simp add: changeStatus_def Let_def LIVE_def CLOSED_def split: prod.splits)
  have w': "snd (changeStatus ident data w) = snd (getEvent ident (snd (update ident ?d w)))"
    by (simp add: same)
  have "calls (snd (changeStatus ident data w)) =
          calls w @ [DbUpdate ident ?p, DbOnceEvent ident, DbOnceEvent ident]"
    by (simp add: w' getEvent_world update_calls)
  moreover have "?p ''status'' = Some CLOSED"
    using closed by (simp add: payload_apply eventProps_mem R_defaultTo_def CLOSED_def)
  moreover have "?p ''showEndedAt'' = Some TS"
    by (simp add: payload_apply eventProps_mem)
  moreover have "?p ''showStartedAt'' = data ''showStartedAt''"
    by (simp add: payload_apply eventProps_mem split: option.splits)
  ultimately show "\<exists>payload.
          calls (snd (changeStatus ident data w)) =
            calls w @ [DbUpdate ident payload, DbOnceEvent ident, DbOnceEvent ident] \<and>
          payload ''status'' = Some CLOSED \<and>
          payload ''showEndedAt'' = Some TS \<and>
          payload ''showStartedAt'' = data ''showStartedAt''"
    by blast
  show "child ident (db_events (snd (changeStatus ident data w))) ''status'' = Some CLOSED"
    using closed
    by (simp add: w' getEvent_world update_stored payload_apply eventProps_mem
        firebase_value_def R_defaultTo_def CLOSED_def)
  show "child ident (db_events (snd (changeStatus ident data w))) ''showEndedAt'' =
        Some (JNum (serverTime w))"
    by (simp add: w' getEvent_world update_stored payload_apply eventProps_mem
        firebase_value_def TS_def)
  show "child ident (db_events (snd (changeStatus ident data w))) ''showStartedAt'' =
           child ident (db_events w) ''showStartedAt''" if "data ''showStartedAt'' = None"
    using that by (simp add: w' getEvent_world update_stored payload_apply eventProps_mem)
next
  assume other: "data ''status'' \<noteq> Some LIVE \<and> data ''status'' \<noteq> Some CLOSED"
  let ?p = "buildEvent eventProps (R_merge timestampUpdate data)"
  show same: "changeStatus ident data w = getEvent ident (snd (update ident data w))"
    using other by (simp add: changeStatus_def Let_def split: prod.splits)
  have w': "snd (changeStatus ident data w) = snd (getEvent ident (snd (update ident data w)))"
    by (simp add: same)
  have "calls (snd (changeStatus ident data w)) =
          calls w @ [DbUpdate ident ?p, DbOnceEvent ident, DbOnceEvent ident]"
    by (simp add: w' getEvent_world update_calls)
  moreover have "?p ''status'' = Some v" if "data ''status'' = Some v \<and> v \<noteq> JNull" for v
    using that by (simp add: payload_apply eventProps_mem R_defaultTo_def)
  moreover have "?p ''status'' = None" if "data ''status'' = None"
    using that by (simp add: payload_apply eventProps_mem)
  moreover have "?p ''status'' = Some NOT_STARTED" if "data ''status'' = Some JNull"
    using that by (simp add: payload_apply eventProps_mem R_defaultTo_def)
  moreover have "?p ''showStartedAt'' = data ''showStartedAt''"
    by (simp add: payload_apply eventProps_mem split: option.splits)
  moreover have "?p ''showEndedAt'' = data ''showEndedAt''"
    by (simp add: payload_apply eventProps_mem split: option.splits)
  ultimately show "\<exists>payload.
          calls (snd (changeStatus ident data w)) =
            calls w @ [DbUpdate ident payload, DbOnceEvent ident, DbOnceEvent ident] \<and>
          (\<forall>v. data ''status'' = Some v \<and> v \<noteq> JNull \<longrightarrow> payload ''status'' = Some v) \<and>
          (data ''status'' = None \<longrightarrow> payload ''status'' = None) \<and>
          (data ''status'' = Some JNull \<longrightarrow> payload ''status'' = Some NOT_STARTED) \<and>
          payload ''showStartedAt'' = data ''showStartedAt'' \<and>
          payload ''showEndedAt'' = data ''showEndedAt''"
    by (intro exI [of _ ?p] conjI allI impI) assumption+
  show "\<forall>v. data ''status'' = Some v \<and> v \<noteq> JNull \<longrightarrow>
         child ident (db_events (snd (changeStatus ident data w))) ''status'' =
           firebase_value (serverTime w) v"
    by (simp add: w' getEvent_world update_stored payload_apply eventProps_mem R_defaultTo_def)
  show "child ident (db_events (snd (changeStatus ident data w))) ''status'' =
           child ident (db_events w) ''status''" if "data ''status'' = None"
    using that by (simp add: w' getEvent_world update_stored payload_apply eventProps_mem)
  show "child ident (db_events (snd (changeStatus ident data w))) ''showStartedAt'' =
           child ident (db_events w) ''showStartedAt''" if "data ''showStartedAt'' = None"
    using that by (simp add: w' getEvent_world update_stored payload_apply eventProps_mem)
  show "child ident (db_events (snd (changeStatus ident data w))) ''showEndedAt'' =
           child ident (db_events w) ''showEndedAt''" if "data ''showEndedAt'' = None"
    using that by (simp add: w' getEvent_world update_stored payload_apply eventProps_mem)
qed

lemma stampedWorld_facts:
  "child ''e1'' (db_events stampedWorld) = stampedEvent"
  "serverTime stampedWorld = 1000"
  by (simp_all add: stampedWorld_def sampleWorld_def child_def)

theorem changeStatus_stamps_witness:
  "child ''e1'' (db_events (snd (changeStatus ''e1'' [''status'' \<mapsto> LIVE] stampedWorld)))
       ''showStartedAt'' = Some (JNum 1000) \<and>
   child ''e1'' (db_events (snd (changeStatus ''e1'' [''status'' \<mapsto> LIVE] stampedWorld)))
       ''showEndedAt'' = Some (JNum 700) \<and>
   child ''e1'' (db_events (snd (changeStatus ''e1'' [''status'' \<mapsto> CLOSED] stampedWorld)))
       ''showEndedAt'' = Some (JNum 1000) \<and>
   child ''e1'' (db_events (snd (changeStatus ''e1'' [''status'' \<mapsto> CLOSED] stampedWorld)))
       ''showStartedAt'' = Some (JNum 500) \<and>
   child ''e1'' (db_events (snd (changeStatus ''e1'' [''status'' \<mapsto> CLOSED] stampedWorld)))
       ''status'' = Some (JStr ''closed'') \<and>
   child ''e1'' (db_events (snd (changeStatus ''e1'' [''status'' \<mapsto> PRESHOW] stampedWorld)))
       ''status'' = Some (JStr ''preshow'') \<and>
   child ''e1'' (db_events (snd (changeStatus ''e1'' [''status'' \<mapsto> PRESHOW] stampedWorld)))
       ''showStartedAt'' = Some (JNum 500) \<and>
   child ''e1'' (db_events (snd (changeStatus ''e1'' [''status'' \<mapsto> PRESHOW] stampedWorld)))
       ''showEndedAt'' = Some (JNum 700)"
proof -
  have live: "[''status'' \<mapsto> LIVE] ''status'' = Some LIVE" by simp
  have closed: "[''status'' \<mapsto> CLOSED] ''status'' = Some CLOSED" by simp
  have other: "[''status'' \<mapsto> PRESHOW] ''status'' \<noteq> Some LIVE \<and>
               [''status'' \<mapsto> PRESHOW] ''status'' \<noteq> Some CLOSED"
    by (simp add: PRESHOW_def LIVE_def CLOSED_def)
  note a = changeStatus_stamps [where data = "[''status'' \<mapsto> LIVE]" and ident = "''e1''"
      and w = stampedWorld, THEN conjunct1, rule_format, OF live, THEN conjunct2]
  note b = changeStatus_stamps [where data = "[''status'' \<mapsto> CLOSED]" and ident = "''e1''"
      and w = stampedWorld, THEN conjunct2, THEN conjunct1, rule_format, OF closed,
      THEN conjunct2]
  note c = changeStatus_stamps [where data = "[''status'' \<mapsto> PRESHOW]" and ident = "''e1''"
      and w = stampedWorld, THEN conjunct2, THEN conjunct2, rule_format, OF other,
      THEN conjunct2, THEN conjunct2]
  from a have a': "child ''e1'' (db_events (snd (changeStatus ''e1'' [''status'' \<mapsto> LIVE]
      stampedWorld))) ''showStartedAt'' = Some (JNum 1000) \<and>
      child ''e1'' (db_events (snd (changeStatus ''e1'' [''status'' \<mapsto> LIVE] stampedWorld)))
        ''showEndedAt'' = Some (JNum 700)"
    by (simp add: stampedWorld_facts stampedEvent_def)
  from b have b': "child ''e1'' (db_events (snd (changeStatus ''e1'' [''status'' \<mapsto> CLOSED]
      stampedWorld))) ''showEndedAt'' = Some (JNum 1000) \<and>
      child ''e1'' (db_events (snd (changeStatus ''e1'' [''status'' \<mapsto> CLOSED] stampedWorld)))
        ''showStartedAt'' = Some (JNum 500) \<and>
      child ''e1'' (db_events (snd (changeStatus ''e1'' [''status'' \<mapsto> CLOSED] stampedWorld)))
        ''status'' = Some (JStr ''closed'')"
    by (simp add: stampedWorld_facts stampedEvent_def CLOSED_def)
  from c have c': "child ''e1'' (db_events (snd (changeStatus ''e1'' [''status'' \<mapsto> PRESHOW]
      stampedWorld))) ''status'' = Some (JStr ''preshow'') \<and>
      child ''e1'' (db_events (snd (changeStatus ''e1'' [''status'' \<mapsto> PRESHOW] stampedWorld)))
        ''showStartedAt'' = Some (JNum 500) \<and>
      child ''e1'' (db_events (snd (changeStatus ''e1'' [''status'' \<mapsto> PRESHOW] stampedWorld)))
        ''showEndedAt'' = Some (JNum 700)"
    by (simp add: stampedWorld_facts stampedEvent_def PRESHOW_def firebase_value_def)
  from a' b' c' show ?thesis by simp
qed

section \<open>What changeStatus returns\<close>

lemma changeStatus_value:
  "fst (changeStatus ident data w) =
     (if child ident (db_events (snd (changeStatus ident data w))) = Map.empty then None
      else Some (child ident (db_events (snd (changeStatus ident data w)))))"
  by (simp add: changeStatus_def Let_def getEvent_def db_once_event_def split: prod.splits)

text \<open>
  Claim C7. For a payload whose status is a string, \<^verbatim>\<open>changeStatus\<close> returns the record
  that the store holds after the update. That record carries the new status, the server's
  time as \<open>showStartedAt\<close> when the status is \<open>LIVE\<close> and as \<open>showEndedAt\<close>
  when it is \<open>CLOSED\<close>, a fresh \<open>updatedAt\<close>, every other whitelisted field of the
  payload as the store keeps it, and the former value of every property the payload does not
  touch.
\<close>

theorem changeStatus_returns_refreshed:
  assumes st: "data ''status'' = Some (JStr s)"
  shows "\<exists>r. fst (changeStatus ident data w) = Some r \<and>
             child ident (db_events (snd (changeStatus ident data w))) = r \<and>
             r ''status'' = Some (JStr s) \<and>
             (JStr s = LIVE \<longrightarrow> r ''showStartedAt'' = Some (JNum (serverTime w))) \<and>
             (JStr s = CLOSED \<longrightarrow> r ''showEndedAt'' = Some (JNum (serverTime w))) \<and>
             (data ''updatedAt'' = None \<longrightarrow> r ''updatedAt'' = Some (JNum (serverTime w))) \<and>
             (\<forall>k v. k \<in> set eventProps \<and> data k = Some v \<and>
                    k \<notin> {''status'', ''archiveEvent'', ''composed'',
                           ''showStartedAt'', ''showEndedAt''} \<longrightarrow>
                    r k = firebase_value (serverTime w) v) \<and>
             (\<forall>k. k \<notin> set eventProps \<or>
                  (data k = None \<and> k \<notin> {''updatedAt'', ''showStartedAt'', ''showEndedAt''}) \<longrightarrow>
                  r k = child ident (db_events w) k)"
proof -
  let ?d = "if data ''status'' = Some LIVE then data(''showStartedAt'' \<mapsto> TS)
            else if data ''status'' = Some CLOSED then data(''showEndedAt'' \<mapsto> TS)
            else data"
  let ?r = "child ident (db_events (snd (changeStatus ident data w)))"
  have r: "?r k = (case buildEvent eventProps (R_merge timestampUpdate ?d) k of
                     None \<Rightarrow> child ident (db_events w) k
                   | Some v \<Rightarrow> firebase_value (serverTime w) v)" for k
    by (simp add: changeStatus_world getEvent_world update_stored)
  have status: "?r ''status'' = Some (JStr s)"
    using st by (simp add: r payload_apply eventProps_mem R_defaultTo_def firebase_value_def)
  then have "?r \<noteq> Map.empty" by (metis option.distinct(1))
  then have ret: "fst (changeStatus ident data w) = Some ?r"
    by (simp add: changeStatus_value)
  have live: "?r ''showStartedAt'' = Some (JNum (serverTime w))" if "JStr s = LIVE"
    using st that by (simp add: r payload_apply eventProps_mem firebase_value_def TS_def)
  have closed: "?r ''showEndedAt'' = Some (JNum (serverTime w))" if "JStr s = CLOSED"
    using st that
    by (simp add: r payload_apply eventProps_mem firebase_value_def TS_def LIVE_def CLOSED_def)
  have upd: "?r ''updatedAt'' = Some (JNum (serverTime w))" if "data ''updatedAt'' = None"
    using that by (simp add: r payload_apply eventProps_mem firebase_value_def TS_def)
  have carried: "?r k = firebase_value (serverTime w) v"
    if "k \<in> set eventProps \<and> data k = Some v \<and>
        k \<notin> {''status'', ''archiveEvent'', ''composed'', ''showStartedAt'', ''showEndedAt''}"
    for k v
    using that by (simp add: r payload_apply)
  have kept: "?r k = child ident (db_events w) k"
    if "k \<notin> set eventProps \<or>
        (data k = None \<and> k \<notin> {''updatedAt'', ''showStartedAt'', ''showEndedAt''})" for k
  proof (cases "k \<in> set eventProps")
    case True
    with that have "data k = None" and "k \<noteq> ''updatedAt''" and "k \<noteq> ''showStartedAt''"
      and "k \<noteq> ''showEndedAt''" by auto
    then show ?thesis by (simp add: r payload_apply)
  next
    case False
    then show ?thesis by (simp add: r payload_apply)
  qed
  show ?thesis
  proof (intro exI conjI allI impI)
    show "fst (changeStatus ident data w) = Some ?r" by (rule ret)
    show "?r = ?r" by (rule refl)
    show "?r ''status'' = Some (JStr s)" by (rule status)
    show "?r ''showStartedAt'' = Some (JNum (serverTime w))" if "JStr s = LIVE"
      using that by (rule live)
    show "?r ''showEndedAt'' = Some (JNum (serverTime w))" if "JStr s = CLOSED"
      using that by (rule closed)
    show "?r ''updatedAt'' = Some (JNum (serverTime w))" if "data ''updatedAt'' = None"
      using that by (rule upd)
    show "?r k = firebase_value (serverTime w) v"
      if "k \<in> set eventProps \<and> data k = Some v \<and>
          k \<notin> {''status'', ''archiveEvent'', ''composed'', ''showStartedAt'', ''showEndedAt''}"
      for k v
      using that by (rule carried)
    show "?r k = child ident (db_events w) k"
      if "k \<notin> set eventProps \<or>
          (data k = None \<and> k \<notin> {''updatedAt'', ''showStartedAt'', ''showEndedAt''})" for k
      using that by (rule kept)
  qed
qed

theorem changeStatus_returns_refreshed_witness:
  "\<exists>r. fst (changeStatus ''e1'' [''status'' \<mapsto> JStr ''live''] sampleWorld) = Some r \<and>
       r ''status'' = Some (JStr ''live'') \<and>
       r ''showStartedAt'' = Some (JNum 1000) \<and>
       r ''fanUrl'' = Some (JStr ''alpha'')"
proof -
  have st: "[''status'' \<mapsto> JStr ''live''] ''status'' = Some (JStr ''live'')" by simp
  from changeStatus_returns_refreshed [where data = "[''status'' \<mapsto> JStr ''live'']"
      and s = "''live''" and ident = "''e1''" and w = sampleWorld, OF st]
  obtain r where a: "fst (changeStatus ''e1'' [''status'' \<mapsto> JStr ''live''] sampleWorld) = Some r"
    and b: "r ''status'' = Some (JStr ''live'')"
    and c: "JStr ''live'' = LIVE \<longrightarrow> r ''showStartedAt'' = Some (JNum (serverTime sampleWorld))"
    and d: "\<forall>k. k \<notin> set eventProps \<or>
                ([''status'' \<mapsto> JStr ''live''] k = None \<and>
                 k \<notin> {''updatedAt'', ''showStartedAt'', ''showEndedAt''}) \<longrightarrow>
                r k = child ''e1'' (db_events sampleWorld) k"
    by blast
  have c': "r ''showStartedAt'' = Some (JNum 1000)"
    using c by (simp add: LIVE_def sampleWorld_def)
  have d': "r ''fanUrl'' = Some (JStr ''alpha'')"
    using d [rule_format, of "''fanUrl''"]
    by (simp add: sampleWorld_def sampleEvent_def child_def)
  show ?thesis using a b c' d' by blast
qed

section \<open>What saveEvent persists\<close>

lemma saveEvent_stored:
  "child (pushKey (pushed w)) (db_events (snd (saveEvent data w))) k =
     (case buildEvent eventProps
             (R_mergeAll [timestampCreate, [''id'' \<mapsto> JStr (pushKey (pushed w))], data]) k of
        None \<Rightarrow> None
      | Some v \<Rightarrow> firebase_value (serverTime w) v)"
  by (simp add: saveEvent_def db_push_def db_set_def getEvent_def db_once_event_def Let_def
      child_put_child_same cong: option.case_cong)

lemma saveEvent_value:
  "fst (saveEvent data w) =
     (if child (pushKey (pushed w)) (db_events (snd (saveEvent data w))) = Map.empty then None
      else Some (child (pushKey (pushed w)) (db_events (snd (saveEvent data w)))))"
  by (simp add: saveEvent_def db_push_def db_set_def getEvent_def db_once_event_def Let_def
      child_put_child_same)

lemma saveEvent_calls:
  "calls (snd (saveEvent data w)) =
     calls w @ [DbPush,
                DbSet (pushKey (pushed w))
                  (buildEvent eventProps
                     (R_mergeAll [timestampCreate, [''id'' \<mapsto> JStr (pushKey (pushed w))], data])),
                DbOnceEvent (pushKey (pushed w))]"
  by (simp add: saveEvent_def db_push_def db_set_def getEvent_def db_once_event_def Let_def)

lemma mergeAll3: "R_mergeAll [a, b, c] = a ++ b ++ c"
  by (simp add: R_mergeAll_def)

lemma created_apply_given:
  "data k = Some v \<Longrightarrow>
   buildEvent eventProps (R_mergeAll [timestampCreate, [''id'' \<mapsto> i], data]) k =
     (if k \<in> set eventProps
      then Some (if k = ''status'' then R_defaultTo NOT_STARTED v
                 else if k = ''archiveEvent'' \<or> k = ''composed'' then R_defaultTo (JBool False) v
                 else v)
      else None)"
  by (simp add: buildEvent_apply mergeAll3 map_add_def)

lemma created_apply_absent:
  "data k = None \<Longrightarrow>
   buildEvent eventProps (R_mergeAll [timestampCreate, [''id'' \<mapsto> i], data]) k =
     (if k = ''id'' then Some i
      else if k = ''createdAt'' \<or> k = ''updatedAt'' then Some TS
      else None)"
  using eventProps_mem(1,9,10)
  by (auto simp add: buildEvent_apply mergeAll3 map_add_def timestampCreate_def)

text \<open>
  Claim C2, as the code has it. The record that \<^verbatim>\<open>saveEvent\<close> persists and returns has
  only whitelisted keys. For \<open>status\<close>, \<open>archiveEvent\<close> and \<open>composed\<close> the default
  (\<open>NOT_STARTED\<close>, false, false) is stored when the data carries the field with a null
  value; a field the data does not carry is absent from the record; any other value is
  stored as given.
\<close>

theorem saveEvent_whitelist_defaults:
  "fst (saveEvent data w) =
     (if child (pushKey (pushed w)) (db_events (snd (saveEvent data w))) = Map.empty then None
      else Some (child (pushKey (pushed w)) (db_events (snd (saveEvent data w))))) \<and>
   dom (child (pushKey (pushed w)) (db_events (snd (saveEvent data w)))) \<subseteq> set eventProps \<and>
   (\<forall>k d. (k, d) \<in> {(''status'', NOT_STARTED), (''archiveEvent'', JBool False),
                      (''composed'', JBool False)} \<longrightarrow>
      (data k = Some JNull \<longrightarrow>
         child (pushKey (pushed w)) (db_events (snd (saveEvent data w))) k = Some d) \<and>
      (data k = None \<longrightarrow>
         child (pushKey (pushed w)) (db_events (snd (saveEvent data w))) k = None) \<and>
      (\<forall>v. data k = Some v \<and> v \<noteq> JNull \<longrightarrow>
         child (pushKey (pushed w)) (db_events (snd (saveEvent data w))) k =
           firebase_value (serverTime w) v))"
proof (intro conjI allI impI)
  let ?r = "child (pushKey (pushed w)) (db_events (snd (saveEvent data w)))"
  show "fst (saveEvent data w) = (if ?r = Map.empty then None else Some ?r)"
    by (rule saveEvent_value)
  show "dom ?r \<subseteq> set eventProps"
  proof
    fix k assume "k \<in> dom ?r"
    then have "buildEvent eventProps
                 (R_mergeAll [timestampCreate, [''id'' \<mapsto> JStr (pushKey (pushed w))], data]) k
               \<noteq> None"
      by (auto simp add: saveEvent_stored split: option.splits)
    then show "k \<in> set eventProps"
      by (simp add: buildEvent_apply split: if_splits)
  qed
next
  fix k d
  assume kd: "(k, d) \<in> {(''status'', NOT_STARTED), (''archiveEvent'', JBool False),
                         (''composed'', JBool False)}"
  let ?r = "child (pushKey (pushed w)) (db_events (snd (saveEvent data w)))"
  have mem: "k \<in> set eventProps" using kd eventProps_mem(5,6,7) by auto
  have dflt: "d \<noteq> JNull \<and> d \<noteq> ServerTimestamp" using kd by (auto simp add: NOT_STARTED_def)
  show "?r k = Some d" if "data k = Some JNull"
    using kd dflt mem that created_apply_given [where data = data and k = k and v = JNull]
    by (auto simp add: saveEvent_stored R_defaultTo_def firebase_value_def)
  show "?r k = None" if "data k = None"
    using kd that created_apply_absent [where data = data and k = k]
    by (auto simp add: saveEvent_stored)
  show "?r k = firebase_value (serverTime w) v" if "data k = Some v \<and> v \<noteq> JNull" for v
    using kd that mem created_apply_given [where data = data and k = k and v = v]
    by (auto simp add: saveEvent_stored R_defaultTo_def)
qed

theorem saveEvent_whitelist_defaults_witness:
  "child ''-'' (db_events (snd (saveEvent nullStatusEvent sampleWorld))) ''status''
     = Some (JStr ''notStarted'') \<and>
   child ''-'' (db_events (snd (saveEvent nullStatusEvent sampleWorld))) ''archiveEvent'' = None \<and>
   ''bogus'' \<notin> dom (child ''-'' (db_events (snd (saveEvent nullStatusEvent sampleWorld))))"
proof -
  note t = saveEvent_whitelist_defaults [where data = nullStatusEvent and w = sampleWorld]
  have k: "pushKey (pushed sampleWorld) = ''-''" by (simp add: pushKey_def sampleWorld_def)
  have a: "child ''-'' (db_events (snd (saveEvent nullStatusEvent sampleWorld))) ''status''
             = Some (JStr ''notStarted'')"
    using t [THEN conjunct2, THEN conjunct2, rule_format, of "''status''" NOT_STARTED,
        THEN conjunct1]
    by (simp add: k nullStatusEvent_def NOT_STARTED_def)
  have b: "child ''-'' (db_events (snd (saveEvent nullStatusEvent sampleWorld))) ''archiveEvent''
             = None"
    using t [THEN conjunct2, THEN conjunct2, rule_format, of "''archiveEvent''" "JBool False",
        THEN conjunct2, THEN conjunct1]
    by (simp add: k nullStatusEvent_def)
  have c: "''bogus'' \<notin> dom (child ''-'' (db_events (snd (saveEvent nullStatusEvent sampleWorld))))"
    using t [THEN conjunct2, THEN conjunct1] by (auto simp add: k eventProps_def)
  show ?thesis using a b c by blast
qed

theorem saveEvent_no_default_counterexample:
  "fst (saveEvent bareEvent sampleWorld) =
     Some (child ''-'' (db_events (snd (saveEvent bareEvent sampleWorld)))) \<and>
   child ''-'' (db_events (snd (saveEvent bareEvent sampleWorld))) ''name'' = Some (JStr ''show'') \<and>
   child ''-'' (db_events (snd (saveEvent bareEvent sampleWorld))) ''status'' \<noteq> Some NOT_STARTED \<and>
   child ''-'' (db_events (snd (saveEvent bareEvent sampleWorld))) ''archiveEvent''
     \<noteq> Some (JBool False) \<and>
   child ''-'' (db_events (snd (saveEvent bareEvent sampleWorld))) ''composed''
     \<noteq> Some (JBool False)"
proof -
  have k: "pushKey (pushed sampleWorld) = ''-''" by (simp add: pushKey_def sampleWorld_def)
  let ?r = "child ''-'' (db_events (snd (saveEvent bareEvent sampleWorld)))"
  have name: "?r ''name'' = Some (JStr ''show'')"
    using saveEvent_stored [of sampleWorld bareEvent "''name''"]
      created_apply_given [of bareEvent "''name''" "JStr ''show''" "JStr ''-''"]
    by (simp add: k bareEvent_def eventProps_def firebase_value_def)
  have absent: "?r ''status'' = None" "?r ''archiveEvent'' = None" "?r ''composed'' = None"
    using saveEvent_stored [of sampleWorld bareEvent "''status''"]
      saveEvent_stored [of sampleWorld bareEvent "''archiveEvent''"]
      saveEvent_stored [of sampleWorld bareEvent "''composed''"]
      created_apply_absent [of bareEvent "''status''" "JStr ''-''"]
      created_apply_absent [of bareEvent "''archiveEvent''" "JStr ''-''"]
      created_apply_absent [of bareEvent "''composed''" "JStr ''-''"]
    by (simp_all add: k bareEvent_def)
  from name have "?r \<noteq> Map.empty" by (metis option.distinct(1))
  then have "fst (saveEvent bareEvent sampleWorld) = Some ?r"
    using saveEvent_value [of bareEvent sampleWorld] by (simp add: k)
  with name absent show ?thesis by simp
qed

section \<open>The most recent active event\<close>

lemma consistent_antisym:
  assumes c: "consistent_comparator cmp S" and ab: "a \<in> S" "b \<in> S"
  shows "(cmp a b < 0) = (cmp b a > 0)"
proof -
  have refl: "cmp a a = 0" "cmp b b = 0" using c ab by (auto simp add: consistent_comparator_def)
  have sym: "cmp x y = 0 \<Longrightarrow> cmp y x = 0" if "x \<in> S" "y \<in> S" for x y
    using c that unfolding consistent_comparator_def by blast
  have lt: "cmp x y < 0 \<Longrightarrow> cmp y z < 0 \<Longrightarrow> cmp x z < 0" if "x \<in> S" "y \<in> S" "z \<in> S" for x y z
    using c that unfolding consistent_comparator_def by blast
  have gt: "cmp x y > 0 \<Longrightarrow> cmp y z > 0 \<Longrightarrow> cmp x z > 0" if "x \<in> S" "y \<in> S" "z \<in> S" for x y z
    using c that unfolding consistent_comparator_def by blast
  show ?thesis
  proof
    assume l: "cmp a b < 0"
    show "cmp b a > 0"
    proof (rule ccontr)
      assume "\<not> cmp b a > 0"
      then consider "cmp b a = 0" | "cmp b a < 0" by linarith
      then show False
      proof cases
        case 1
        then have "cmp a b = 0" using sym [of b a] ab by simp
        with l show False by simp
      next
        case 2
        then have "cmp a a < 0" using lt [of a b a] l ab by simp
        with refl show False by simp
      qed
    qed
  next
    assume g: "cmp b a > 0"
    show "cmp a b < 0"
    proof (rule ccontr)
      assume "\<not> cmp a b < 0"
      then consider "cmp a b = 0" | "cmp a b > 0" by linarith
      then show False
      proof cases
        case 1
        then have "cmp b a = 0" using sym [of a b] ab by simp
        with g show False by simp
      next
        case 2
        then have "cmp a a > 0" using gt [of a b a] g ab by simp
        with refl show False by simp
      qed
    qed
  qed
qed

lemma consistent_le_trans:
  assumes c: "consistent_comparator cmp S" and mem: "a \<in> S" "b \<in> S" "d \<in> S"
    and ab: "cmp a b \<le> 0" and bd: "cmp b d \<le> 0"
  shows "cmp a d \<le> 0"
proof (rule ccontr)
  assume "\<not> cmp a d \<le> 0"
  then have ad: "cmp a d > 0" by simp
  then have da: "cmp d a < 0" using consistent_antisym [OF c mem(3,1)] by simp
  have sym: "cmp x y = 0 \<Longrightarrow> cmp y x = 0" if "x \<in> S" "y \<in> S" for x y
    using c that unfolding consistent_comparator_def by blast
  have eq: "cmp x y = 0 \<Longrightarrow> cmp y z = 0 \<Longrightarrow> cmp x z = 0" if "x \<in> S" "y \<in> S" "z \<in> S" for x y z
    using c that unfolding consistent_comparator_def by blast
  have lt: "cmp x y < 0 \<Longrightarrow> cmp y z < 0 \<Longrightarrow> cmp x z < 0" if "x \<in> S" "y \<in> S" "z \<in> S" for x y z
    using c that unfolding consistent_comparator_def by blast
  have refl: "cmp x x = 0" if "x \<in> S" for x
    using c that unfolding consistent_comparator_def by blast
  consider "cmp a b < 0" | "cmp a b = 0" using ab by linarith
  then show False
  proof cases
    case 1
    then have "cmp d b < 0" using lt [of d a b] da mem by simp
    then have "cmp b d > 0" using consistent_antisym [OF c mem(3,2)] by simp
    with bd show False by simp
  next
    case 2
    consider "cmp b d < 0" | "cmp b d = 0" using bd by linarith
    then show False
    proof cases
      case 1
      then have "cmp b a < 0" using lt [of b d a] da mem by simp
      then have "cmp a b > 0" using consistent_antisym [OF c mem(2,1)] by simp
      with 2 show False by simp
    next
      case b2: 2
      have "cmp a d = 0" using eq [of a b d] 2 b2 mem by simp
      with ad show False by simp
    qed
  qed
qed

lemma set_insert_element: "set (insert_element cmp x ys) = insert x (set ys)"
  by (induction ys) auto

lemma set_fold_insert:
  "set (foldl (\<lambda>sorted element. insert_element cmp element sorted) acc xs) = set acc \<union> set xs"
  by (induction xs arbitrary: acc) (auto simp add: set_insert_element)

lemma sorted_insert_element:
  assumes c: "consistent_comparator cmp S"
    and mem: "x \<in> S" "set ys \<subseteq> S"
    and srt: "sorted_wrt (\<lambda>a b. \<not> cmp a b < 0) ys"
  shows "sorted_wrt (\<lambda>a b. \<not> cmp a b < 0) (insert_element cmp x ys)"
  using mem(2) srt
proof (induction ys)
  case Nil
  then show ?case by simp
next
  case (Cons y ys)
  have yS: "y \<in> S" using Cons.prems(1) by simp
  show ?case
  proof (cases "cmp y x > 0")
    case True
    have "\<not> cmp y z < 0" if "z \<in> set (insert_element cmp x ys)" for z
      using that True Cons.prems(2) by (auto simp add: set_insert_element)
    moreover have "sorted_wrt (\<lambda>a b. \<not> cmp a b < 0) (insert_element cmp x ys)"
      using Cons.IH Cons.prems by simp
    ultimately show ?thesis using True by simp
  next
    case False
    then have yx: "cmp y x \<le> 0" by simp
    have xy: "\<not> cmp x y < 0"
      using consistent_antisym [OF c mem(1) yS] False by simp
    have "\<not> cmp x z < 0" if z: "z \<in> set ys" for z
    proof
      assume "cmp x z < 0"
      then have "cmp z x > 0" using consistent_antisym [OF c mem(1)] z Cons.prems(1) by auto
      moreover have "\<not> cmp y z < 0" using Cons.prems(2) z by simp
      then have "\<not> cmp z y > 0" using consistent_antisym [OF c yS] z Cons.prems(1) by auto
      then have "cmp z y \<le> 0" by simp
      then have "cmp z x \<le> 0"
        using consistent_le_trans [OF c _ yS mem(1) _ yx, of z] z Cons.prems(1) by auto
      ultimately show False by simp
    qed
    with False xy Cons.prems(2) show ?thesis by simp
  qed
qed

lemma sorted_fold_insert:
  assumes c: "consistent_comparator cmp S"
  shows "set acc \<subseteq> S \<Longrightarrow> set xs \<subseteq> S \<Longrightarrow> sorted_wrt (\<lambda>a b. \<not> cmp a b < 0) acc \<Longrightarrow>
         sorted_wrt (\<lambda>a b. \<not> cmp a b < 0)
           (foldl (\<lambda>sorted element. insert_element cmp element sorted) acc xs)"
proof (induction xs arbitrary: acc)
  case Nil
  then show ?case by simp
next
  case (Cons x xs)
  have "sorted_wrt (\<lambda>a b. \<not> cmp a b < 0) (insert_element cmp x acc)"
    using sorted_insert_element [OF c _ Cons.prems(1) Cons.prems(3), of x] Cons.prems(2) by simp
  moreover have "set (insert_element cmp x acc) \<subseteq> S"
    using Cons.prems by (simp add: set_insert_element)
  ultimately show ?case using Cons.IH [of "insert_element cmp x acc"] Cons.prems(2) by simp
qed

lemma insertionSort_as_specified: "sorts_as_specified insertionSort"
  unfolding sorts_as_specified_def
proof (intro allI conjI impI)
  fix cmp xs
  show "set (insertionSort cmp xs) = set xs"
    by (simp add: insertionSort_def set_fold_insert)
  assume c: "consistent_comparator cmp (set xs)"
  have "sorted_wrt (\<lambda>a b. \<not> cmp a b < 0)
          (foldl (\<lambda>sorted element. insert_element cmp element sorted) [] xs)"
    using sorted_fold_insert [OF c, of "[]" xs] by simp
  then show "sorted_wrt (\<lambda>a b. \<not> cmp b a < 0) (insertionSort cmp xs)"
    by (simp add: insertionSort_def sorted_wrt_rev)
qed


lemma js_lt_numbers: "js_lt (Some (JNum x)) (Some (JNum y)) = (x < y)"
  by (simp add: js_lt_def)

lemma compare_createdAt_below:
  "(sortWith_compare [R_ascend (R_prop ''createdAt'')] a b < 0) =
     js_lt (a ''createdAt'') (b ''createdAt'')"
  by (simp add: R_ascend_def R_prop_def Let_def)

lemma compare_createdAt_numbers:
  assumes "a ''createdAt'' = Some (JNum m)" "b ''createdAt'' = Some (JNum n)"
  shows "sortWith_compare [R_ascend (R_prop ''createdAt'')] a b =
           (if m < n then - 1 else if n < m then 1 else 0)"
  using assms by (simp add: R_ascend_def R_prop_def Let_def js_lt_numbers)

lemma createdAt_comparator_consistent:
  assumes num: "\<forall>e \<in> S. \<exists>n. e ''createdAt'' = Some (JNum n)"
  shows "consistent_comparator (sortWith_compare [R_ascend (R_prop ''createdAt'')]) S"
proof -
  define cmp where "cmp = sortWith_compare [R_ascend (R_prop ''createdAt'')]"
  define k where "k = (\<lambda>e :: obj. case e ''createdAt'' of Some (JNum n) \<Rightarrow> n | _ \<Rightarrow> 0)"
  have key: "cmp a b = (if k a < k b then - 1 else if k b < k a then 1 else 0)"
    if "a \<in> S" "b \<in> S" for a b
  proof -
    from bspec [OF num that(1)] obtain m where m: "a ''createdAt'' = Some (JNum m)" ..
    from bspec [OF num that(2)] obtain n where n: "b ''createdAt'' = Some (JNum n)" ..
    have "k a = m" "k b = n" by (simp_all add: k_def m n)
    then show ?thesis
      unfolding cmp_def
        compare_createdAt_numbers [where a = a and b = b and m = m and n = n, OF m n]
      by simp
  qed
  have refl: "cmp a a = 0" if "a \<in> S" for a
    using that by (simp add: key)
  have sym: "cmp b a = 0" if "a \<in> S" "b \<in> S" "cmp a b = 0" for a b
    using that(3) unfolding key [OF that(1,2)] key [OF that(2,1)] by (simp split: if_splits)
  have eq: "cmp a c = 0" if "a \<in> S" "b \<in> S" "c \<in> S" "cmp a b = 0 \<and> cmp b c = 0" for a b c
    using that(4) unfolding key [OF that(1,2)] key [OF that(2,3)] key [OF that(1,3)]
    by (simp split: if_splits)
  have lt: "cmp a c < 0" if "a \<in> S" "b \<in> S" "c \<in> S" "cmp a b < 0 \<and> cmp b c < 0" for a b c
    using that(4) unfolding key [OF that(1,2)] key [OF that(2,3)] key [OF that(1,3)]
    by (simp split: if_splits)
  have gt: "cmp a c > 0" if "a \<in> S" "b \<in> S" "c \<in> S" "cmp a b > 0 \<and> cmp b c > 0" for a b c
    using that(4) unfolding key [OF that(1,2)] key [OF that(2,3)] key [OF that(1,3)]
    by (simp split: if_splits)
  have "consistent_comparator cmp S"
    unfolding consistent_comparator_def
    using refl sym eq lt gt by (intro conjI ballI impI) blast+
  then show ?thesis by (simp only: cmp_def)
qed

lemma set_sortByCreatedAt:
  "sorts_as_specified arraySort \<Longrightarrow> set (sortByCreatedAt arraySort xs) = set xs"
  by (simp add: sorts_as_specified_def sortByCreatedAt_def R_sortWith_def)

lemma sortByCreatedAt_Nil:
  "sorts_as_specified arraySort \<Longrightarrow> sortByCreatedAt arraySort [] = []"
  using set_sortByCreatedAt [of arraySort "[]"] by simp

lemma sorted_sortByCreatedAt:
  assumes spec: "sorts_as_specified arraySort"
    and num: "\<forall>e \<in> set xs. \<exists>n. e ''createdAt'' = Some (JNum n)"
  shows "sorted_wrt (\<lambda>a b. \<not> js_lt (b ''createdAt'') (a ''createdAt''))
           (sortByCreatedAt arraySort xs)"
proof -
  let ?cmp = "sortWith_compare [R_ascend (R_prop ''createdAt'')]"
  have "sorted_wrt (\<lambda>a b. \<not> ?cmp b a < 0) (arraySort ?cmp xs)"
    using spec createdAt_comparator_consistent [OF num]
    unfolding sorts_as_specified_def by blast
  then show ?thesis
    by (simp only: compare_createdAt_below sortByCreatedAt_def R_sortWith_def)
qed

lemma find_first_of_sorted:
  "sorted_wrt P xs \<Longrightarrow> List.find Q xs = Some r \<Longrightarrow> e \<in> set xs \<Longrightarrow> Q e \<Longrightarrow> e = r \<or> P r e"
  by (induction xs) (auto split: if_splits)

lemma filterByStatus_Some:
  "filterByStatus s xs = Some r \<Longrightarrow> r \<in> set xs \<and> r ''status'' = Some s"
  by (auto simp add: filterByStatus_def R_find_def R_propEq_def find_Some_iff)

lemma filterByStatus_None:
  "(filterByStatus s xs = None) = (\<forall>e \<in> set xs. e ''status'' \<noteq> Some s)"
  by (auto simp add: filterByStatus_def R_find_def R_propEq_def find_None_iff)

lemma filterByStatus_earliest:
  assumes spec: "sorts_as_specified arraySort"
    and num: "\<forall>e \<in> set xs. \<exists>n. e ''createdAt'' = Some (JNum n)"
    and found: "filterByStatus s (sortByCreatedAt arraySort xs) = Some r"
    and e: "e \<in> set xs" "e ''status'' = Some s"
    and keys: "e ''createdAt'' = Some (JNum n)" "r ''createdAt'' = Some (JNum m)"
  shows "m \<le> n"
proof -
  have "e = r \<or> \<not> js_lt (e ''createdAt'') (r ''createdAt'')"
    using find_first_of_sorted [where P = "\<lambda>a b. \<not> js_lt (b ''createdAt'') (a ''createdAt'')"
        and Q = "R_propEq ''status'' s" and xs = "sortByCreatedAt arraySort xs" and r = r
        and e = e]
      sorted_sortByCreatedAt [OF spec num] found e
    by (simp add: filterByStatus_def R_find_def R_propEq_def set_sortByCreatedAt [OF spec])
  then show ?thesis using keys by (auto simp add: js_lt_numbers)
qed

lemma getEvents_owned:
  "fst (getEvents (Some a) w) =
     (if ownedEvents a w = [] then None
      else Some (filter (\<lambda>kv. ownedBy a (snd kv)) (db_events w)))"
  "Object_values (filter (\<lambda>kv. ownedBy a (snd kv)) (db_events w)) = ownedEvents a w"
proof -
  have m: "map snd (filter (\<lambda>kv. ownedBy a (snd kv)) (db_events w)) = ownedEvents a w"
    by (simp add: ownedEvents_def filter_map comp_def)
  then show "Object_values (filter (\<lambda>kv. ownedBy a (snd kv)) (db_events w)) = ownedEvents a w"
    by (simp add: Object_values_def)
  have e: "(filter (\<lambda>kv. ownedBy a (snd kv)) (db_events w) = []) = (ownedEvents a w = [])"
    using m by (metis map_is_Nil_conv)
  show "fst (getEvents (Some a) w) =
     (if ownedEvents a w = [] then None
      else Some (filter (\<lambda>kv. ownedBy a (snd kv)) (db_events w)))"
    using e by (simp add: getEvents_def db_once_events_by_def Let_def ownedBy_def)
qed

lemma getMostRecentEvent_value:
  assumes spec: "sorts_as_specified arraySort"
  shows "fst (getMostRecentEvent arraySort (Some a) w) =
     (case filterByStatus LIVE (sortByCreatedAt arraySort (ownedEvents a w)) of
        Some e \<Rightarrow> Some e
      | None \<Rightarrow> filterByStatus PRESHOW (sortByCreatedAt arraySort (ownedEvents a w)))"
proof (cases "getEvents (Some a) w")
  case (Pair snapshot w1)
  show ?thesis
  proof (cases "ownedEvents a w = []")
    case True
    then have "snapshot = None" using getEvents_owned(1) [of a w] Pair by simp
    then show ?thesis
      using True Pair
      by (simp add: getMostRecentEvent_def sortByCreatedAt_Nil [OF spec] filterByStatus_def
          R_find_def)
  next
    case False
    then have "snapshot = Some (filter (\<lambda>kv. ownedBy a (snd kv)) (db_events w))"
      using getEvents_owned(1) [of a w] Pair by simp
    then show ?thesis
      using Pair
      by (simp add: getMostRecentEvent_def getEvents_owned(2) Let_def cong: option.case_cong)
  qed
qed


lemma set_ownedEvents:
  "set (ownedEvents a w) = {e \<in> snd ` set (db_events w). ownedBy a e}"
  by (auto simp add: ownedEvents_def)

text \<open>
  Claim C3, as the code has it. Whatever the engine's sort does with an inconsistent
  comparator, \<^verbatim>\<open>getMostRecentEvent\<close> returns a stored event of the admin with status
  \<open>LIVE\<close> when the admin has one, whatever the creation times of the \<open>PRESHOW\<close>
  events; else one of the admin with status \<open>PRESHOW\<close> when there is one; else none. When
  every event of the admin has a number as \<open>createdAt\<close>, no event of the admin with the
  same status was created before the one returned. Without an id the events are those of
  the null id.
\<close>

theorem getMostRecentEvent_prefers_live:
  fixes a :: jsval and w :: world
  assumes spec: "sorts_as_specified arraySort"
  defines "owned \<equiv> {e \<in> snd ` set (db_events w). ownedBy a e}"
  shows
  "((\<exists>e \<in> owned. e ''status'' = Some LIVE) \<longrightarrow>
      (\<exists>r. fst (getMostRecentEvent arraySort (Some a) w) = Some r \<and>
           r \<in> owned \<and> r ''status'' = Some LIVE \<and>
           ((\<forall>e \<in> owned. \<exists>n. e ''createdAt'' = Some (JNum n)) \<longrightarrow>
              (\<forall>e n m. e \<in> owned \<and> e ''status'' = Some LIVE \<and>
                       e ''createdAt'' = Some (JNum n) \<and> r ''createdAt'' = Some (JNum m) \<longrightarrow>
                       m \<le> n)))) \<and>
   ((\<forall>e \<in> owned. e ''status'' \<noteq> Some LIVE) \<and> (\<exists>e \<in> owned. e ''status'' = Some PRESHOW) \<longrightarrow>
      (\<exists>r. fst (getMostRecentEvent arraySort (Some a) w) = Some r \<and>
           r \<in> owned \<and> r ''status'' = Some PRESHOW \<and>
           ((\<forall>e \<in> owned. \<exists>n. e ''createdAt'' = Some (JNum n)) \<longrightarrow>
              (\<forall>e n m. e \<in> owned \<and> e ''status'' = Some PRESHOW \<and>
                       e ''createdAt'' = Some (JNum n) \<and> r ''createdAt'' = Some (JNum m) \<longrightarrow>
                       m \<le> n)))) \<and>
   ((\<forall>e \<in> owned. e ''status'' \<noteq> Some LIVE \<and> e ''status'' \<noteq> Some PRESHOW) \<longrightarrow>
      fst (getMostRecentEvent arraySort (Some a) w) = None) \<and>
   getMostRecentEvent arraySort None w = getMostRecentEvent arraySort (Some JNull) w"
proof (intro conjI impI)
  let ?sorted = "sortByCreatedAt arraySort (ownedEvents a w)"
  have owned: "set (ownedEvents a w) = owned"
    by (simp add: set_ownedEvents owned_def)
  have set_sorted: "set ?sorted = owned"
    by (simp add: set_sortByCreatedAt [OF spec] owned)
  note found = getMostRecentEvent_value [OF spec, of a w]
  {
    assume live: "\<exists>e \<in> owned. e ''status'' = Some LIVE"
    then have "filterByStatus LIVE ?sorted \<noteq> None"
      by (simp add: filterByStatus_None set_sorted)
    then obtain r where r: "filterByStatus LIVE ?sorted = Some r" by (cases "filterByStatus LIVE ?sorted") auto
    have ret: "fst (getMostRecentEvent arraySort (Some a) w) = Some r"
      by (simp add: found r)
    have mem: "r \<in> owned" and st: "r ''status'' = Some LIVE"
      using filterByStatus_Some [OF r] by (simp_all add: set_sorted)
    have early: "m \<le> n"
      if num: "\<forall>e \<in> owned. \<exists>n. e ''createdAt'' = Some (JNum n)"
        and e: "e \<in> owned \<and> e ''status'' = Some LIVE \<and>
             e ''createdAt'' = Some (JNum n) \<and> r ''createdAt'' = Some (JNum m)"
      for e n m
    proof -
      have num': "\<forall>e \<in> set (ownedEvents a w). \<exists>n. e ''createdAt'' = Some (JNum n)"
        using num by (simp add: owned)
      show ?thesis
        by (rule filterByStatus_earliest [where xs = "ownedEvents a w" and s = LIVE and r = r
              and e = e and n = n and m = m, OF spec num' r])
          (use e in \<open>simp_all add: owned\<close>)
    qed
    show "\<exists>r. fst (getMostRecentEvent arraySort (Some a) w) = Some r \<and>
           r \<in> owned \<and> r ''status'' = Some LIVE \<and>
           ((\<forall>e \<in> owned. \<exists>n. e ''createdAt'' = Some (JNum n)) \<longrightarrow>
              (\<forall>e n m. e \<in> owned \<and> e ''status'' = Some LIVE \<and>
                       e ''createdAt'' = Some (JNum n) \<and> r ''createdAt'' = Some (JNum m) \<longrightarrow>
                       m \<le> n))"
      using ret mem st early by (intro exI [of _ r] conjI impI allI) assumption+
  }
  {
    assume pre: "(\<forall>e \<in> owned. e ''status'' \<noteq> Some LIVE) \<and>
                 (\<exists>e \<in> owned. e ''status'' = Some PRESHOW)"
    then have nolive: "filterByStatus LIVE ?sorted = None"
      by (simp add: filterByStatus_None set_sorted)
    from pre have "filterByStatus PRESHOW ?sorted \<noteq> None"
      by (simp add: filterByStatus_None set_sorted)
    then obtain r where r: "filterByStatus PRESHOW ?sorted = Some r"
      by (cases "filterByStatus PRESHOW ?sorted") auto
    have ret: "fst (getMostRecentEvent arraySort (Some a) w) = Some r"
      by (simp add: found r nolive)
    have mem: "r \<in> owned" and st: "r ''status'' = Some PRESHOW"
      using filterByStatus_Some [OF r] by (simp_all add: set_sorted)
    have early: "m \<le> n"
      if num: "\<forall>e \<in> owned. \<exists>n. e ''createdAt'' = Some (JNum n)"
        and e: "e \<in> owned \<and> e ''status'' = Some PRESHOW \<and>
             e ''createdAt'' = Some (JNum n) \<and> r ''createdAt'' = Some (JNum m)"
      for e n m
    proof -
      have num': "\<forall>e \<in> set (ownedEvents a w). \<exists>n. e ''createdAt'' = Some (JNum n)"
        using num by (simp add: owned)
      show ?thesis
        by (rule filterByStatus_earliest [where xs = "ownedEvents a w" and s = PRESHOW and r = r
              and e = e and n = n and m = m, OF spec num' r])
          (use e in \<open>simp_all add: owned\<close>)
    qed
    show "\<exists>r. fst (getMostRecentEvent arraySort (Some a) w) = Some r \<and>
           r \<in> owned \<and> r ''status'' = Some PRESHOW \<and>
           ((\<forall>e \<in> owned. \<exists>n. e ''createdAt'' = Some (JNum n)) \<longrightarrow>
              (\<forall>e n m. e \<in> owned \<and> e ''status'' = Some PRESHOW \<and>
                       e ''createdAt'' = Some (JNum n) \<and> r ''createdAt'' = Some (JNum m) \<longrightarrow>
                       m \<le> n))"
      using ret mem st early by (intro exI [of _ r] conjI impI allI) assumption+
  }
  {
    assume none: "\<forall>e \<in> owned. e ''status'' \<noteq> Some LIVE \<and> e ''status'' \<noteq> Some PRESHOW"
    then have "filterByStatus LIVE ?sorted = None" "filterByStatus PRESHOW ?sorted = None"
      by (simp_all add: filterByStatus_None set_sorted)
    then show "fst (getMostRecentEvent arraySort (Some a) w) = None"
      by (simp add: found)
  }
  show "getMostRecentEvent arraySort None w = getMostRecentEvent arraySort (Some JNull) w"
    by (simp add: getMostRecentEvent_def getEvents_def)
qed

lemma fourEvents_owned:
  "{e \<in> snd ` set (db_events fourEventsWorld). ownedBy (JStr ''a1'') e} = {live20, live10, preshow5}"
  by (auto simp add: fourEventsWorld_def ownedBy_def live20_def live10_def preshow5_def
      foreignLive1_def)

theorem getMostRecentEvent_prefers_live_witness:
  "fst (getMostRecentEvent insertionSort (Some (JStr ''a1'')) fourEventsWorld) = Some live10"
proof -
  let ?owned = "{e \<in> snd ` set (db_events fourEventsWorld). ownedBy (JStr ''a1'') e}"
  have st: "live20 ''status'' = Some LIVE" "live10 ''status'' = Some LIVE"
    "preshow5 ''status'' \<noteq> Some LIVE"
    by (simp_all add: live20_def live10_def preshow5_def LIVE_def)
  have at: "live20 ''createdAt'' = Some (JNum 20)" "live10 ''createdAt'' = Some (JNum 10)"
    "preshow5 ''createdAt'' = Some (JNum 5)"
    by (simp_all add: live20_def live10_def preshow5_def)
  have ex: "\<exists>e \<in> ?owned. e ''status'' = Some LIVE"
    unfolding fourEvents_owned using st by simp
  have num: "\<forall>e \<in> ?owned. \<exists>n. e ''createdAt'' = Some (JNum n)"
    unfolding fourEvents_owned using at by simp
  from getMostRecentEvent_prefers_live [OF insertionSort_as_specified,
      where a = "JStr ''a1''" and w = fourEventsWorld, THEN conjunct1, rule_format, OF ex]
  obtain r where ret: "fst (getMostRecentEvent insertionSort (Some (JStr ''a1'')) fourEventsWorld)
        = Some r"
    and mem: "r \<in> ?owned" and live: "r ''status'' = Some LIVE"
    and early: "(\<forall>e \<in> ?owned. \<exists>n. e ''createdAt'' = Some (JNum n)) \<longrightarrow>
              (\<forall>e n m. e \<in> ?owned \<and> e ''status'' = Some LIVE \<and>
                       e ''createdAt'' = Some (JNum n) \<and> r ''createdAt'' = Some (JNum m) \<longrightarrow>
                       m \<le> n)"
    by (elim exE conjE)
  from mem live st have cases: "r = live20 \<or> r = live10"
    unfolding fourEvents_owned by auto
  have "live10 \<in> ?owned" unfolding fourEvents_owned by simp
  then have "m \<le> 10" if "r ''createdAt'' = Some (JNum m)" for m
    using early [THEN mp, OF num, rule_format, of live10 10 m] st(2) at(2) that by simp
  then have "r \<noteq> live20" using at(1) by fastforce
  with cases ret show ?thesis by simp
qed

theorem getMostRecentEvent_later_live_counterexample:
  "sorts_as_specified insertionSort \<and>
   fst (getMostRecentEvent insertionSort (Some (JStr ''a1'')) unstampedWorld) = Some live20 \<and>
   live10 \<in> snd ` set (db_events unstampedWorld) \<and>
   ownedBy (JStr ''a1'') live10 \<and>
   live10 ''status'' = Some LIVE \<and>
   live10 ''createdAt'' = Some (JNum 10) \<and>
   live20 ''createdAt'' = Some (JNum 20)"
proof -
  have facts: "live10 \<in> snd ` set (db_events unstampedWorld)"
    "ownedBy (JStr ''a1'') live10" "live10 ''status'' = Some LIVE"
    "live10 ''createdAt'' = Some (JNum 10)" "live20 ''createdAt'' = Some (JNum 20)"
    by (simp_all add: unstampedWorld_def ownedBy_def live10_def live20_def LIVE_def)
  have owned: "Object_values (filter (\<lambda>kv. ownedBy (JStr ''a1'') (snd kv)) (db_events unstampedWorld))
                 = [live20, closedUnstamped, live10]"
    by (simp add: Object_values_def unstampedWorld_def ownedBy_def live20_def live10_def
        closedUnstamped_def)
  have cmp: "sortWith_compare [R_ascend (R_prop ''createdAt'')] live20 closedUnstamped = 0"
    "sortWith_compare [R_ascend (R_prop ''createdAt'')] closedUnstamped live10 = 0"
    by (simp_all add: R_ascend_def R_prop_def Let_def js_lt_def live20_def live10_def
        closedUnstamped_def)
  have sorted: "sortByCreatedAt insertionSort [live20, closedUnstamped, live10]
                  = [live20, closedUnstamped, live10]"
    unfolding sortByCreatedAt_def R_sortWith_def insertionSort_def
    by (simp add: cmp del: sortWith_compare.simps)
  have live: "filterByStatus LIVE [live20, closedUnstamped, live10] = Some live20"
    by (simp add: filterByStatus_def R_find_def R_propEq_def live20_def LIVE_def)
  have ne: "ownedEvents (JStr ''a1'') unstampedWorld \<noteq> []"
    by (simp add: ownedEvents_def unstampedWorld_def ownedBy_def live20_def)
  have "fst (getMostRecentEvent insertionSort (Some (JStr ''a1'')) unstampedWorld) = Some live20"
    unfolding getMostRecentEvent_value [OF insertionSort_as_specified]
      getEvents_owned(2) [symmetric] owned sorted live
    by simp
  with facts insertionSort_as_specified show ?thesis by simp
qed

section \<open>Lookup by admin and slug\<close>

lemma getEventByKey_value:
  "fst (getEventByKey adminId slug (Some field) w) =
     List.find (\<lambda>e. e ''adminId'' = Some (JStr adminId))
       (map snd (filter (\<lambda>kv. snd kv field = Some (JStr slug)) (db_events w)))"
proof -
  have match: "(\<lambda>kv. case snd kv field of None \<Rightarrow> JStr slug = JNull | Some x \<Rightarrow> x = JStr slug) =
               (\<lambda>kv. snd kv field = Some (JStr slug))"
    by (auto simp add: fun_eq_iff split: option.splits)
  have pred: "R_propEq ''adminId'' (JStr adminId) = (\<lambda>e. e ''adminId'' = Some (JStr adminId))"
    by (simp add: fun_eq_iff R_propEq_def)
  show ?thesis
    by (simp add: getEventByKey_def db_once_events_by_def Let_def match Object_values_def
        R_find_def pred)
qed

text \<open>
  Claim C4. \<^verbatim>\<open>getEventByKey\<close> returns only a stored event that is owned by the admin and
  whose slug field has the slug; it returns one whenever such an event is stored, and that
  event when it is the only one; it returns none when every stored event with the slug
  belongs to another admin. Without a field argument the field is \<open>fanUrl\<close>.
\<close>

theorem getEventByKey_owner_and_slug:
  "(\<forall>e. fst (getEventByKey adminId slug (Some field) w) = Some e \<longrightarrow>
        e \<in> snd ` set (db_events w) \<and> e field = Some (JStr slug) \<and>
        e ''adminId'' = Some (JStr adminId)) \<and>
   ((\<exists>e \<in> snd ` set (db_events w).
        e field = Some (JStr slug) \<and> e ''adminId'' = Some (JStr adminId)) \<longrightarrow>
      fst (getEventByKey adminId slug (Some field) w) \<noteq> None) \<and>
   (\<forall>e. e \<in> snd ` set (db_events w) \<and> e field = Some (JStr slug) \<and>
        e ''adminId'' = Some (JStr adminId) \<and>
        (\<forall>e' \<in> snd ` set (db_events w).
            e' field = Some (JStr slug) \<and> e' ''adminId'' = Some (JStr adminId) \<longrightarrow> e' = e) \<longrightarrow>
        fst (getEventByKey adminId slug (Some field) w) = Some e) \<and>
   ((\<forall>e \<in> snd ` set (db_events w).
        e field = Some (JStr slug) \<longrightarrow> e ''adminId'' \<noteq> Some (JStr adminId)) \<longrightarrow>
      fst (getEventByKey adminId slug (Some field) w) = None) \<and>
   getEventByKey adminId slug None w = getEventByKey adminId slug (Some ''fanUrl'') w"
proof -
  let ?hits = "map snd (filter (\<lambda>kv. snd kv field = Some (JStr slug)) (db_events w))"
  let ?res = "fst (getEventByKey adminId slug (Some field) w)"
  have hits: "set ?hits = {e \<in> snd ` set (db_events w). e field = Some (JStr slug)}"
    by auto
  have sound: "e \<in> snd ` set (db_events w) \<and> e field = Some (JStr slug) \<and>
               e ''adminId'' = Some (JStr adminId)" if "?res = Some e" for e
  proof -
    from that have "e \<in> set ?hits \<and> e ''adminId'' = Some (JStr adminId)"
      unfolding getEventByKey_value find_Some_iff by (metis nth_mem)
    then show ?thesis unfolding hits by simp
  qed
  have complete: "?res \<noteq> None"
    if "\<exists>e \<in> snd ` set (db_events w).
          e field = Some (JStr slug) \<and> e ''adminId'' = Some (JStr adminId)"
  proof -
    from that have "\<exists>e \<in> set ?hits. e ''adminId'' = Some (JStr adminId)"
      unfolding hits by blast
    then show ?thesis unfolding getEventByKey_value find_None_iff by blast
  qed
  have unique: "?res = Some e"
    if "e \<in> snd ` set (db_events w) \<and> e field = Some (JStr slug) \<and>
        e ''adminId'' = Some (JStr adminId) \<and>
        (\<forall>e' \<in> snd ` set (db_events w).
            e' field = Some (JStr slug) \<and> e' ''adminId'' = Some (JStr adminId) \<longrightarrow> e' = e)"
    for e
  proof -
    from that complete have "?res \<noteq> None" by blast
    then obtain r where r: "?res = Some r" by blast
    from sound [OF r] that have "r = e" by blast
    with r show ?thesis by simp
  qed
  have none: "?res = None"
    if "\<forall>e \<in> snd ` set (db_events w).
          e field = Some (JStr slug) \<longrightarrow> e ''adminId'' \<noteq> Some (JStr adminId)"
  proof (cases ?res)
    case None
    then show ?thesis .
  next
    case (Some e)
    from sound [OF Some] that show ?thesis by blast
  qed
  have dflt: "getEventByKey adminId slug None w = getEventByKey adminId slug (Some ''fanUrl'') w"
    by (simp add: getEventByKey_def)
  show ?thesis
  proof (intro conjI allI impI)
    show "e \<in> snd ` set (db_events w)" "e field = Some (JStr slug)"
      "e ''adminId'' = Some (JStr adminId)" if "?res = Some e" for e
      using sound [OF that] by simp_all
    show "?res \<noteq> None"
      if "\<exists>e \<in> snd ` set (db_events w).
            e field = Some (JStr slug) \<and> e ''adminId'' = Some (JStr adminId)"
      using that by (rule complete)
    show "?res = Some e"
      if "e \<in> snd ` set (db_events w) \<and> e field = Some (JStr slug) \<and>
          e ''adminId'' = Some (JStr adminId) \<and>
          (\<forall>e' \<in> snd ` set (db_events w).
              e' field = Some (JStr slug) \<and> e' ''adminId'' = Some (JStr adminId) \<longrightarrow> e' = e)"
      for e
      using that by (rule unique)
    show "?res = None"
      if "\<forall>e \<in> snd ` set (db_events w).
            e field = Some (JStr slug) \<longrightarrow> e ''adminId'' \<noteq> Some (JStr adminId)"
      using that by (rule none)
    show "getEventByKey adminId slug None w = getEventByKey adminId slug (Some ''fanUrl'') w"
      by (rule dflt)
  qed
qed

theorem getEventByKey_owner_and_slug_witness:
  "fst (getEventByKey ''a1'' ''alpha'' None sampleWorld) = Some sampleEvent \<and>
   fst (getEventByKey ''a2'' ''alpha'' None sampleWorld) = None"
proof -
  note t1 = getEventByKey_owner_and_slug [where adminId = "''a1''" and slug = "''alpha''"
      and field = "''fanUrl''" and w = sampleWorld]
  note t2 = getEventByKey_owner_and_slug [where adminId = "''a2''" and slug = "''alpha''"
      and field = "''fanUrl''" and w = sampleWorld]
  have stored: "snd ` set (db_events sampleWorld) = {sampleEvent}"
    by (simp add: sampleWorld_def)
  have fields: "sampleEvent ''fanUrl'' = Some (JStr ''alpha'')"
    "sampleEvent ''adminId'' = Some (JStr ''a1'')"
    by (simp_all add: sampleEvent_def)
  have "fst (getEventByKey ''a1'' ''alpha'' (Some ''fanUrl'') sampleWorld) = Some sampleEvent"
    using t1 [THEN conjunct2, THEN conjunct2, THEN conjunct1, rule_format, of sampleEvent]
    by (simp add: stored fields)
  moreover have "fst (getEventByKey ''a2'' ''alpha'' (Some ''fanUrl'') sampleWorld) = None"
    using t2 [THEN conjunct2, THEN conjunct2, THEN conjunct2, THEN conjunct1]
    by (simp add: stored fields)
  ultimately show ?thesis
    using t1 [THEN conjunct2, THEN conjunct2, THEN conjunct2, THEN conjunct2]
      t2 [THEN conjunct2, THEN conjunct2, THEN conjunct2, THEN conjunct2]
    by simp
qed

section \<open>Creating an event\<close>

lemma getSessions_ok:
  assumes "sessionAnswers w = Some sa # Some sb # rest"
  shows "getSessions (Some admin) w =
           (Sessions [''sessionId'' \<mapsto> JStr sa, ''stageSessionId'' \<mapsto> JStr sb],
            w\<lparr>sessionAnswers := rest,
              calls := calls w @ [OtCreateSession (admin ''otApiKey'') (admin ''otSecret''),
                                  OtCreateSession (admin ''otApiKey'') (admin ''otSecret'')]\<rparr>)"
  using assms
  by (simp add: getSessions_def createSession_def OpenTok_createSession_def Let_def)

lemma getSessions_fails_first:
  assumes "sessionAnswers w = [] \<or> (\<exists>rest. sessionAnswers w = None # rest)"
  shows "getSessions (Some admin) w =
           (ErrorObject ''error creating sessions'',
            w\<lparr>sessionAnswers := tl (sessionAnswers w),
              calls := calls w @ [OtCreateSession (admin ''otApiKey'') (admin ''otSecret'')]\<rparr>)"
  using assms
  by (auto simp add: getSessions_def createSession_def OpenTok_createSession_def Let_def)

lemma OpenTok_createSession_frame:
  "pushed (snd (OpenTok_createSession k s w)) = pushed w"
  "serverTime (snd (OpenTok_createSession k s w)) = serverTime w"
  "db_events (snd (OpenTok_createSession k s w)) = db_events w"
  by (simp_all add: OpenTok_createSession_def Let_def split: list.splits option.splits)

lemma createSession_frame:
  "pushed (snd (createSession admin w)) = pushed w"
  "serverTime (snd (createSession admin w)) = serverTime w"
  "db_events (snd (createSession admin w)) = db_events w"
  by (simp_all add: createSession_def OpenTok_createSession_frame split: option.splits)

lemma getSessions_frame:
  "pushed (snd (getSessions admin w)) = pushed w"
  "serverTime (snd (getSessions admin w)) = serverTime w"
  "db_events (snd (getSessions admin w)) = db_events w"
proof -
  obtain r1 w1 where c1: "createSession admin w = (r1, w1)" by (cases "createSession admin w")
  obtain r2 w2 where c2: "createSession admin w1 = (r2, w2)" by (cases "createSession admin w1")
  have f1: "pushed w1 = pushed w" "serverTime w1 = serverTime w" "db_events w1 = db_events w"
    using createSession_frame [of admin w] by (simp_all add: c1)
  have f2: "pushed w2 = pushed w" "serverTime w2 = serverTime w" "db_events w2 = db_events w"
    using createSession_frame [of admin w1] by (simp_all add: c2 f1)
  show "pushed (snd (getSessions admin w)) = pushed w"
    "serverTime (snd (getSessions admin w)) = serverTime w"
    "db_events (snd (getSessions admin w)) = db_events w"
    by (simp_all add: getSessions_def c1 c2 f1 f2 split: sum.splits)
qed

lemma create_found:
  assumes "data ''adminId'' = Some (JStr a)"
  shows "create data w =
           (case getSessions (db_admins w a) (w\<lparr>calls := calls w @ [DbOnceAdmin a]\<rparr>) of
              (sessions, w2) \<Rightarrow>
                (case saveEvent (R_mergeAll [[''status'' \<mapsto> NOT_STARTED, ''rtmpUrl'' \<mapsto> JStr []],
                                             data, ownProps sessions]) w2 of
                   (saved, w3) \<Rightarrow> (Inr saved, w3)))"
  using assms by (simp add: create_def getAdmin_def Let_def)

lemma create_record:
  assumes adm: "data ''adminId'' = Some (JStr a)"
    and ses: "fst (getSessions (db_admins w a) (w\<lparr>calls := calls w @ [DbOnceAdmin a]\<rparr>)) = sessions"
  shows "child (pushKey (pushed w)) (db_events (snd (create data w))) k =
           (case buildEvent eventProps
                   (R_mergeAll [timestampCreate, [''id'' \<mapsto> JStr (pushKey (pushed w))],
                      [''status'' \<mapsto> NOT_STARTED, ''rtmpUrl'' \<mapsto> JStr []] ++ data
                        ++ ownProps sessions]) k of
              None \<Rightarrow> None
            | Some v \<Rightarrow> firebase_value (serverTime w) v)"
    and "fst (create data w) =
           Inr (if child (pushKey (pushed w)) (db_events (snd (create data w))) = Map.empty
                then None
                else Some (child (pushKey (pushed w)) (db_events (snd (create data w)))))"
proof -
  let ?w1 = "w\<lparr>calls := calls w @ [DbOnceAdmin a]\<rparr>"
  let ?merged = "[''status'' \<mapsto> NOT_STARTED, ''rtmpUrl'' \<mapsto> JStr []] ++ data ++ ownProps sessions"
  obtain w2 where g: "getSessions (db_admins w a) ?w1 = (sessions, w2)"
    using ses by (cases "getSessions (db_admins w a) ?w1") simp
  have frame: "pushed w2 = pushed w" "serverTime w2 = serverTime w"
    using getSessions_frame(1,2) [of "db_admins w a" ?w1] by (simp_all add: g)
  have c: "create data w = (Inr (fst (saveEvent ?merged w2)), snd (saveEvent ?merged w2))"
    by (simp add: create_found [where data = data and a = a, OF adm] g mergeAll3
        split: prod.splits)
  show "child (pushKey (pushed w)) (db_events (snd (create data w))) k =
           (case buildEvent eventProps
                   (R_mergeAll [timestampCreate, [''id'' \<mapsto> JStr (pushKey (pushed w))],
                      ?merged]) k of
              None \<Rightarrow> None
            | Some v \<Rightarrow> firebase_value (serverTime w) v)"
    using saveEvent_stored [of w2 ?merged k] by (simp add: c frame cong: option.case_cong)
  show "fst (create data w) =
           Inr (if child (pushKey (pushed w)) (db_events (snd (create data w))) = Map.empty
                then None
                else Some (child (pushKey (pushed w)) (db_events (snd (create data w)))))"
    using saveEvent_value [of ?merged w2] by (simp add: c frame)
qed

lemma create_record_given:
  assumes adm: "data ''adminId'' = Some (JStr a)"
    and ses: "fst (getSessions (db_admins w a) (w\<lparr>calls := calls w @ [DbOnceAdmin a]\<rparr>)) = sessions"
    and given: "([''status'' \<mapsto> NOT_STARTED, ''rtmpUrl'' \<mapsto> JStr []] ++ data
                   ++ ownProps sessions) k = Some v"
    and mem: "k \<in> set eventProps"
  shows "child (pushKey (pushed w)) (db_events (snd (create data w))) k =
           firebase_value (serverTime w)
             (if k = ''status'' then R_defaultTo NOT_STARTED v
              else if k = ''archiveEvent'' \<or> k = ''composed'' then R_defaultTo (JBool False) v
              else v)"
  unfolding create_record(1) [where data = data and a = a and w = w and sessions = sessions,
      OF adm ses]
  using created_apply_given [where data = "[''status'' \<mapsto> NOT_STARTED, ''rtmpUrl'' \<mapsto> JStr []]
      ++ data ++ ownProps sessions" and k = k and v = v and i = "JStr (pushKey (pushed w))",
      OF given] mem
  by simp

lemma create_record_absent:
  assumes adm: "data ''adminId'' = Some (JStr a)"
    and ses: "fst (getSessions (db_admins w a) (w\<lparr>calls := calls w @ [DbOnceAdmin a]\<rparr>)) = sessions"
    and absent: "([''status'' \<mapsto> NOT_STARTED, ''rtmpUrl'' \<mapsto> JStr []] ++ data
                   ++ ownProps sessions) k = None"
    and other: "k \<noteq> ''id''" "k \<noteq> ''createdAt''" "k \<noteq> ''updatedAt''"
  shows "child (pushKey (pushed w)) (db_events (snd (create data w))) k = None"
  unfolding create_record(1) [where data = data and a = a and w = w and sessions = sessions,
      OF adm ses]
  using created_apply_absent [where data = "[''status'' \<mapsto> NOT_STARTED, ''rtmpUrl'' \<mapsto> JStr []]
      ++ data ++ ownProps sessions" and k = k and i = "JStr (pushKey (pushed w))",
      OF absent] other
  by simp

text \<open>
  Claim C5 at a failing platform: \<^verbatim>\<open>getSessions\<close> answers with an \<^verbatim>\<open>Error\<close> object
  as its value, and \<^verbatim>\<open>create\<close> goes on to persist the event and to return the stored
  record, which has no session id.
\<close>

theorem create_swallows_session_failure:
  "fst (getSessions (Some sampleAdmin) failingPlatformWorld)
     = ErrorObject ''error creating sessions'' \<and>
   fst (create bareEvent failingPlatformWorld) =
     Inr (Some (child ''-'' (db_events (snd (create bareEvent failingPlatformWorld))))) \<and>
   child ''-'' (db_events (snd (create bareEvent failingPlatformWorld))) ''name''
     = Some (JStr ''show'') \<and>
   child ''-'' (db_events (snd (create bareEvent failingPlatformWorld))) ''sessionId'' = None \<and>
   child ''-'' (db_events (snd (create bareEvent failingPlatformWorld))) ''stageSessionId'' = None"
proof -
  let ?w = failingPlatformWorld
  let ?r = "child ''-'' (db_events (snd (create bareEvent ?w)))"
  have adm: "bareEvent ''adminId'' = Some (JStr ''a1'')" by (simp add: bareEvent_def)
  have k: "pushKey (pushed ?w) = ''-''"
    by (simp add: pushKey_def failingPlatformWorld_def sampleWorld_def)
  have admin: "db_admins ?w ''a1'' = Some sampleAdmin"
    by (simp add: failingPlatformWorld_def sampleWorld_def)
  have err: "fst (getSessions (Some sampleAdmin) w') = ErrorObject ''error creating sessions''"
    if "sessionAnswers w' = [None]" for w'
    using that getSessions_fails_first [where w = w' and admin = sampleAdmin] by simp
  have ses: "fst (getSessions (db_admins ?w ''a1'') (?w\<lparr>calls := calls ?w @ [DbOnceAdmin ''a1'']\<rparr>))
               = ErrorObject ''error creating sessions''"
    unfolding admin by (rule err) (simp add: failingPlatformWorld_def)
  have name: "?r ''name'' = Some (JStr ''show'')"
    using create_record_given [where data = bareEvent and a = "''a1''" and w = ?w
        and k = "''name''" and v = "JStr ''show''", OF adm ses]
    by (simp add: k bareEvent_def eventProps_def firebase_value_def)
  have s1: "?r ''sessionId'' = None"
    using create_record_absent [where data = bareEvent and a = "''a1''" and w = ?w
        and k = "''sessionId''", OF adm ses]
    by (simp add: k bareEvent_def)
  have s2: "?r ''stageSessionId'' = None"
    using create_record_absent [where data = bareEvent and a = "''a1''" and w = ?w
        and k = "''stageSessionId''", OF adm ses]
    by (simp add: k bareEvent_def)
  from name have ne: "?r \<noteq> Map.empty" by (metis option.distinct(1))
  have ret: "fst (create bareEvent ?w) = Inr (Some ?r)"
    using create_record(2) [where data = bareEvent and a = "''a1''" and w = ?w, OF adm ses] ne
    by (simp add: k)
  have e0: "fst (getSessions (Some sampleAdmin) ?w) = ErrorObject ''error creating sessions''"
    by (rule err) (simp add: failingPlatformWorld_def)
  show ?thesis using e0 ret name s1 s2 by simp
qed

lemma NOT_STARTED_plain: "NOT_STARTED \<noteq> JNull" "NOT_STARTED \<noteq> ServerTimestamp"
  by (simp_all add: NOT_STARTED_def)

lemma create_with_sessions:
  assumes adm: "data ''adminId'' = Some (JStr a)"
    and admin: "db_admins w a = Some admin"
    and answers: "sessionAnswers w = Some sa # Some sb # rest"
  shows "fst (getSessions (db_admins w a) (w\<lparr>calls := calls w @ [DbOnceAdmin a]\<rparr>)) =
           Sessions [''sessionId'' \<mapsto> JStr sa, ''stageSessionId'' \<mapsto> JStr sb]"
  using getSessions_ok [where w = "w\<lparr>calls := calls w @ [DbOnceAdmin a]\<rparr>" and sa = sa
      and sb = sb and rest = rest and admin = admin] answers
  by (simp add: admin)

lemma create_stores_sessions:
  assumes adm: "data ''adminId'' = Some (JStr a)"
    and admin: "db_admins w a = Some admin"
    and answers: "sessionAnswers w = Some sa # Some sb # rest"
  shows "fst (create data w) =
           Inr (Some (child (pushKey (pushed w)) (db_events (snd (create data w)))))"
    and "child (pushKey (pushed w)) (db_events (snd (create data w))) ''sessionId''
           = Some (JStr sa)"
    and "child (pushKey (pushed w)) (db_events (snd (create data w))) ''stageSessionId''
           = Some (JStr sb)"
proof -
  let ?r = "child (pushKey (pushed w)) (db_events (snd (create data w)))"
  let ?S = "Sessions [''sessionId'' \<mapsto> JStr sa, ''stageSessionId'' \<mapsto> JStr sb]"
  note ses = create_with_sessions [where data = data and a = a and w = w and admin = admin
      and sa = sa and sb = sb and rest = rest, OF adm admin answers]
  note given = create_record_given [where data = data and a = a and w = w and sessions = ?S,
      OF adm ses]
  let ?m = "[''status'' \<mapsto> NOT_STARTED, ''rtmpUrl'' \<mapsto> JStr []] ++ data ++ ownProps ?S"
  have m_sid: "?m ''sessionId'' = Some (JStr sa)" by simp
  have m_stage: "?m ''stageSessionId'' = Some (JStr sb)" by simp
  show sid: "?r ''sessionId'' = Some (JStr sa)"
    using given [where k = "''sessionId''" and v = "JStr sa", OF m_sid eventProps_mem(3)]
    by (simp add: firebase_value_def)
  show "?r ''stageSessionId'' = Some (JStr sb)"
    using given [where k = "''stageSessionId''" and v = "JStr sb", OF m_stage eventProps_mem(4)]
    by (simp add: firebase_value_def)
  from sid have "?r \<noteq> Map.empty" by (metis option.distinct(1))
  then show "fst (create data w) = Inr (Some ?r)"
    using create_record(2) [where data = data and a = a and w = w and sessions = ?S, OF adm ses]
    by simp
qed

text \<open>
  The merge order of \<^verbatim>\<open>create\<close> where provisioning succeeds. When the admin exists and
  the platform answers both \<^verbatim>\<open>createSession\<close> calls, the record that \<^verbatim>\<open>create\<close>
  persists and returns has the two fresh session ids whatever the data says about
  \<open>sessionId\<close> and \<open>stageSessionId\<close>, while \<open>status\<close> and \<open>rtmpUrl\<close> are those of
  the data when the data carries them (as the store keeps them, a null status read as the
  default) and \<open>NOT_STARTED\<close> and the empty string otherwise.
\<close>

theorem create_merge_order:
  assumes adm: "data ''adminId'' = Some (JStr a)"
    and admin: "db_admins w a = Some admin"
    and answers: "sessionAnswers w = Some sa # Some sb # rest"
  shows "fst (create data w) =
           Inr (Some (child (pushKey (pushed w)) (db_events (snd (create data w))))) \<and>
         child (pushKey (pushed w)) (db_events (snd (create data w))) ''sessionId''
           = Some (JStr sa) \<and>
         child (pushKey (pushed w)) (db_events (snd (create data w))) ''stageSessionId''
           = Some (JStr sb) \<and>
         (data ''status'' = None \<longrightarrow>
            child (pushKey (pushed w)) (db_events (snd (create data w))) ''status''
              = Some NOT_STARTED) \<and>
         (\<forall>v. data ''status'' = Some v \<longrightarrow>
            child (pushKey (pushed w)) (db_events (snd (create data w))) ''status''
              = firebase_value (serverTime w) (R_defaultTo NOT_STARTED v)) \<and>
         (data ''rtmpUrl'' = None \<longrightarrow>
            child (pushKey (pushed w)) (db_events (snd (create data w))) ''rtmpUrl''
              = Some (JStr [])) \<and>
         (\<forall>v. data ''rtmpUrl'' = Some v \<longrightarrow>
            child (pushKey (pushed w)) (db_events (snd (create data w))) ''rtmpUrl''
              = firebase_value (serverTime w) v)"
proof -
  let ?r = "child (pushKey (pushed w)) (db_events (snd (create data w)))"
  let ?S = "Sessions [''sessionId'' \<mapsto> JStr sa, ''stageSessionId'' \<mapsto> JStr sb]"
  note ses = create_with_sessions [where data = data and a = a and w = w and admin = admin
      and sa = sa and sb = sb and rest = rest, OF adm admin answers]
  note given = create_record_given [where data = data and a = a and w = w and sessions = ?S,
      OF adm ses]
  let ?m = "[''status'' \<mapsto> NOT_STARTED, ''rtmpUrl'' \<mapsto> JStr []] ++ data ++ ownProps ?S"
  have m_st0: "?m ''status'' = Some NOT_STARTED" if "data ''status'' = None"
    using that by (simp add: map_add_def)
  have m_st1: "?m ''status'' = Some v" if "data ''status'' = Some v" for v
    using that by (simp add: map_add_def)
  have m_u0: "?m ''rtmpUrl'' = Some (JStr [])" if "data ''rtmpUrl'' = None"
    using that by (simp add: map_add_def)
  have m_u1: "?m ''rtmpUrl'' = Some v" if "data ''rtmpUrl'' = Some v" for v
    using that by (simp add: map_add_def)
  note ids = create_stores_sessions [where data = data and a = a and w = w and admin = admin
      and sa = sa and sb = sb and rest = rest, OF adm admin answers]
  have st0: "?r ''status'' = Some NOT_STARTED" if "data ''status'' = None"
    using given [where k = "''status''" and v = NOT_STARTED, OF m_st0 [OF that] eventProps_mem(5)]
    by (simp add: firebase_value_def R_defaultTo_def NOT_STARTED_plain)
  have st1: "?r ''status'' = firebase_value (serverTime w) (R_defaultTo NOT_STARTED v)"
    if "data ''status'' = Some v" for v
    using given [where k = "''status''" and v = v, OF m_st1 [OF that] eventProps_mem(5)]
    by simp
  have u0: "?r ''rtmpUrl'' = Some (JStr [])" if "data ''rtmpUrl'' = None"
    using given [where k = "''rtmpUrl''" and v = "JStr []", OF m_u0 [OF that] eventProps_mem(8)]
    by (simp add: firebase_value_def)
  have u1: "?r ''rtmpUrl'' = firebase_value (serverTime w) v"
    if "data ''rtmpUrl'' = Some v" for v
    using given [where k = "''rtmpUrl''" and v = v, OF m_u1 [OF that] eventProps_mem(8)]
    by simp
  show ?thesis
    using ids st0 st1 u0 u1 by (intro conjI allI impI) assumption+
qed


lemma sample_create_facts:
  "calls sampleWorld = []"
  "db_admins sampleWorld ''a1'' = Some sampleAdmin"
  "sessionAnswers sampleWorld = Some ''s3'' # Some ''s4'' # []"
  "pushKey (pushed sampleWorld) = ''-''"
  "serverTime sampleWorld = 1000"
  by (simp_all add: sampleWorld_def pushKey_def)

theorem create_merge_order_sample:
  "child ''-'' (db_events (snd (create ownSessionsEvent sampleWorld))) ''sessionId''
     = Some (JStr ''s3'') \<and>
   child ''-'' (db_events (snd (create ownSessionsEvent sampleWorld))) ''stageSessionId''
     = Some (JStr ''s4'') \<and>
   child ''-'' (db_events (snd (create ownSessionsEvent sampleWorld))) ''status''
     = Some (JStr ''preshow'') \<and>
   child ''-'' (db_events (snd (create ownSessionsEvent sampleWorld))) ''rtmpUrl''
     = Some (JStr ''rtmp://x'') \<and>
   child ''-'' (db_events (snd (create bareEvent sampleWorld))) ''status''
     = Some (JStr ''notStarted'') \<and>
   child ''-'' (db_events (snd (create bareEvent sampleWorld))) ''rtmpUrl'' = Some (JStr [])"
proof -
  have adm: "ownSessionsEvent ''adminId'' = Some (JStr ''a1'')"
    by (simp add: ownSessionsEvent_def)
  have adm': "bareEvent ''adminId'' = Some (JStr ''a1'')"
    by (simp add: bareEvent_def)
  note t = create_merge_order [where data = ownSessionsEvent and a = "''a1''"
      and w = sampleWorld and admin = sampleAdmin and sa = "''s3''" and sb = "''s4''"
      and rest = "[]", OF adm sample_create_facts(2,3), unfolded sample_create_facts(4,5)]
  note t' = create_merge_order [where data = bareEvent and a = "''a1''"
      and w = sampleWorld and admin = sampleAdmin and sa = "''s3''" and sb = "''s4''"
      and rest = "[]", OF adm' sample_create_facts(2,3), unfolded sample_create_facts(4,5)]
  have st: "ownSessionsEvent ''status'' = Some (JStr ''preshow'')"
    and url: "ownSessionsEvent ''rtmpUrl'' = Some (JStr ''rtmp://x'')"
    by (simp_all add: ownSessionsEvent_def)
  have st': "bareEvent ''status'' = None" and url': "bareEvent ''rtmpUrl'' = None"
    by (simp_all add: bareEvent_def)
  have a: "child ''-'' (db_events (snd (create ownSessionsEvent sampleWorld))) ''status''
             = Some (JStr ''preshow'')"
    using t [THEN conjunct2, THEN conjunct2, THEN conjunct2, THEN conjunct2, THEN conjunct1,
        rule_format, OF st]
    by (simp add: firebase_value_def R_defaultTo_def)
  have b: "child ''-'' (db_events (snd (create ownSessionsEvent sampleWorld))) ''rtmpUrl''
             = Some (JStr ''rtmp://x'')"
    using t [THEN conjunct2, THEN conjunct2, THEN conjunct2, THEN conjunct2, THEN conjunct2,
        THEN conjunct2, rule_format, OF url]
    by (simp add: firebase_value_def)
  have c: "child ''-'' (db_events (snd (create bareEvent sampleWorld))) ''status''
             = Some (JStr ''notStarted'')"
    using t' [THEN conjunct2, THEN conjunct2, THEN conjunct2, THEN conjunct1, rule_format, OF st']
    by (simp add: NOT_STARTED_def)
  have d: "child ''-'' (db_events (snd (create bareEvent sampleWorld))) ''rtmpUrl''
             = Some (JStr [])"
    using t' [THEN conjunct2, THEN conjunct2, THEN conjunct2, THEN conjunct2, THEN conjunct2,
        THEN conjunct1, rule_format, OF url'] .
  show ?thesis
    using t [THEN conjunct2, THEN conjunct1] t [THEN conjunct2, THEN conjunct2, THEN conjunct1]
      a b c d
    by (intro conjI) assumption+
qed

text \<open>
  Claim C10 at a failing platform. The sessions that \<^verbatim>\<open>create\<close> merges last are then
  the \<^verbatim>\<open>Error\<close> object that \<^verbatim>\<open>getSessions\<close> returned, from which the merge copies
  nothing: the record that \<^verbatim>\<open>create\<close> persists and returns keeps the \<open>sessionId\<close>
  and \<open>stageSessionId\<close> of the caller's data instead of fresh session ids.
\<close>

theorem create_keeps_caller_sessions:
  "fst (getSessions (Some sampleAdmin) failingPlatformWorld)
     = ErrorObject ''error creating sessions'' \<and>
   fst (create ownSessionsEvent failingPlatformWorld) =
     Inr (Some (child ''-'' (db_events (snd (create ownSessionsEvent failingPlatformWorld))))) \<and>
   child ''-'' (db_events (snd (create ownSessionsEvent failingPlatformWorld))) ''sessionId''
     = Some (JStr ''mine'') \<and>
   child ''-'' (db_events (snd (create ownSessionsEvent failingPlatformWorld))) ''stageSessionId''
     = Some (JStr ''mine'')"
proof -
  let ?w = failingPlatformWorld
  let ?r = "child ''-'' (db_events (snd (create ownSessionsEvent ?w)))"
  have adm: "ownSessionsEvent ''adminId'' = Some (JStr ''a1'')"
    by (simp add: ownSessionsEvent_def)
  have k: "pushKey (pushed ?w) = ''-''"
    by (simp add: pushKey_def failingPlatformWorld_def sampleWorld_def)
  have admin: "db_admins ?w ''a1'' = Some sampleAdmin"
    by (simp add: failingPlatformWorld_def sampleWorld_def)
  have err: "fst (getSessions (Some sampleAdmin) w') = ErrorObject ''error creating sessions''"
    if "sessionAnswers w' = [None]" for w'
    using that getSessions_fails_first [where w = w' and admin = sampleAdmin] by simp
  have ses: "fst (getSessions (db_admins ?w ''a1'') (?w\<lparr>calls := calls ?w @ [DbOnceAdmin ''a1'']\<rparr>))
               = ErrorObject ''error creating sessions''"
    unfolding admin by (rule err) (simp add: failingPlatformWorld_def)
  let ?m = "[''status'' \<mapsto> NOT_STARTED, ''rtmpUrl'' \<mapsto> JStr []] ++ ownSessionsEvent
              ++ ownProps (ErrorObject ''error creating sessions'')"
  have m1: "?m ''sessionId'' = Some (JStr ''mine'')"
    and m2: "?m ''stageSessionId'' = Some (JStr ''mine'')"
    by (simp_all add: ownSessionsEvent_def)
  have s1: "?r ''sessionId'' = Some (JStr ''mine'')"
    using create_record_given [where data = ownSessionsEvent and a = "''a1''" and w = ?w
        and k = "''sessionId''" and v = "JStr ''mine''", OF adm ses m1 eventProps_mem(3)]
    by (simp add: k firebase_value_def)
  have s2: "?r ''stageSessionId'' = Some (JStr ''mine'')"
    using create_record_given [where data = ownSessionsEvent and a = "''a1''" and w = ?w
        and k = "''stageSessionId''" and v = "JStr ''mine''", OF adm ses m2 eventProps_mem(4)]
    by (simp add: k firebase_value_def)
  from s1 have ne: "?r \<noteq> Map.empty" by (metis option.distinct(1))
  have ret: "fst (create ownSessionsEvent ?w) = Inr (Some ?r)"
    using create_record(2) [where data = ownSessionsEvent and a = "''a1''" and w = ?w,
        OF adm ses] ne
    by (simp add: k)
  have e0: "fst (getSessions (Some sampleAdmin) ?w) = ErrorObject ''error creating sessions''"
    by (rule err) (simp add: failingPlatformWorld_def)
  show ?thesis using e0 ret s1 s2 by simp
qed

lemma buildOtData_fan: \<open>buildOtData ''fan'' = ''{"userType":"fan"}''\<close>
  by (simp add: buildOtData_def JSON_stringify_string_def json_char_def)

section \<open>Session ids after creation and update\<close>






section \<open>Tokens for a fan\<close>

lemma getEventByKey_world:
  "snd (getEventByKey adminId slug (Some field) w) =
     w\<lparr>calls := calls w @ [DbOnceEventsBy field (JStr slug)]\<rparr>"
  by (simp add: getEventByKey_def db_once_events_by_def Let_def)

lemma createTokenFan_no_event:
  assumes "fst (getEventByKey adminId slug (Some ''fanUrl'') w) = None"
  shows "createTokenFan adminId slug w =
           (Inl (TypeError ''Cannot read property adminId of null''),
            w\<lparr>calls := calls w @ [DbOnceEventsBy ''fanUrl'' (JStr slug)]\<rparr>)"
proof -
  have "getEventByKey adminId slug (Some ''fanUrl'') w =
          (None, w\<lparr>calls := calls w @ [DbOnceEventsBy ''fanUrl'' (JStr slug)]\<rparr>)"
    using assms getEventByKey_world [of adminId slug "''fanUrl''" w]
    by (cases "getEventByKey adminId slug (Some ''fanUrl'') w") simp
  then show ?thesis by (simp add: createTokenFan_def)
qed

text \<open>
  Claim C6 on the code. When no stored event with the slug as \<open>fanUrl\<close> belongs to the
  admin, \<^verbatim>\<open>createTokenFan\<close> does not check the missing event: it fails with the engine's
  fault of reading \<open>adminId\<close> of null, not with a not-found condition. The only call it
  has made by then is the query for the event: no admin lookup and no call to the platform.
\<close>

theorem createTokenFan_missing_event:
  assumes "\<forall>e \<in> snd ` set (db_events w).
             e ''fanUrl'' = Some (JStr slug) \<longrightarrow> e ''adminId'' \<noteq> Some (JStr adminId)"
  shows "fst (createTokenFan adminId slug w) =
           Inl (TypeError ''Cannot read property adminId of null'') \<and>
         calls (snd (createTokenFan adminId slug w)) =
           calls w @ [DbOnceEventsBy ''fanUrl'' (JStr slug)]"
proof -
  have "fst (getEventByKey adminId slug (Some ''fanUrl'') w) = None"
    unfolding getEventByKey_value find_None_iff using assms by auto
  then show ?thesis by (simp add: createTokenFan_no_event)
qed

theorem createTokenFan_missing_event_witness:
  "fst (createTokenFan ''a2'' ''alpha'' sampleWorld) =
     Inl (TypeError ''Cannot read property adminId of null'') \<and>
   calls (snd (createTokenFan ''a2'' ''alpha'' sampleWorld)) =
     [DbOnceEventsBy ''fanUrl'' (JStr ''alpha'')]"
proof -
  have "\<forall>e \<in> snd ` set (db_events sampleWorld).
          e ''fanUrl'' = Some (JStr ''alpha'') \<longrightarrow> e ''adminId'' \<noteq> Some (JStr ''a2'')"
    by (simp add: sampleWorld_def sampleEvent_def)
  from createTokenFan_missing_event [where adminId = "''a2''" and slug = "''alpha''"
      and w = sampleWorld, OF this]
  show ?thesis by (simp add: sample_create_facts(1))
qed

theorem createTokenFan_raw_fault:
  "fst (createTokenFan ''a1'' ''nope'' sampleWorld) =
     Inl (TypeError ''Cannot read property adminId of null'') \<and>
   fst (createTokenFan ''a1'' ''nope'' sampleWorld) \<noteq> Inl NotFound"
proof -
  have "fst (getEventByKey ''a1'' ''nope'' (Some ''fanUrl'') sampleWorld) = None"
    by (simp add: getEventByKey_value sampleWorld_def sampleEvent_def)
  then show ?thesis by (simp add: createTokenFan_no_event)
qed

text \<open>
  Claim C9 at a stored event with a stored admin. \<^verbatim>\<open>createTokenFan\<close> calls
  \<^verbatim>\<open>createTokensFan\<close> without awaiting it and destructures the promise, so both tokens
  of its result are undefined, although the platform has been asked for the two publisher
  tokens of user type fan.
\<close>

theorem createTokenFan_tokens_undefined:
  "fst (createTokenFan ''a1'' ''alpha'' sampleWorld) =
     Inr \<lparr>backstageToken = None, stageToken = None, apiKey = Some (JStr ''key''),
          event = sampleEvent, httpSupport = Some (JBool False)\<rparr> \<and>
   calls (snd (createTokenFan ''a1'' ''alpha'' sampleWorld)) =
     [DbOnceEventsBy ''fanUrl'' (JStr ''alpha''), DbOnceAdmin ''a1'',
      OtCreateToken (Some (JStr ''key'')) (Some (JStr ''secret'')) (Some (JStr ''s1''))
        PUBLISHER (buildOtData ''fan''),
      OtCreateToken (Some (JStr ''key'')) (Some (JStr ''secret'')) (Some (JStr ''s2''))
        PUBLISHER (buildOtData ''fan'')]"
proof -
  have ev: "getEventByKey ''a1'' ''alpha'' (Some ''fanUrl'') sampleWorld =
              (Some sampleEvent, sampleWorld\<lparr>calls := [DbOnceEventsBy ''fanUrl'' (JStr ''alpha'')]\<rparr>)"
    by (simp add: getEventByKey_def db_once_events_by_def Let_def Object_values_def R_find_def
        R_propEq_def sampleWorld_def sampleEvent_def)
  have fields: "sampleEvent ''adminId'' = Some (JStr ''a1'')"
    "sampleEvent ''sessionId'' = Some (JStr ''s1'')"
    "sampleEvent ''stageSessionId'' = Some (JStr ''s2'')"
    by (simp_all add: sampleEvent_def)
  have admin: "sampleAdmin ''otApiKey'' = Some (JStr ''key'')"
    "sampleAdmin ''otSecret'' = Some (JStr ''secret'')"
    "sampleAdmin ''httpSupport'' = Some (JBool False)"
    by (simp_all add: sampleAdmin_def)
  show ?thesis
    by (simp add: createTokenFan_def ev fields getAdmin_def sample_create_facts(2) admin
        createTokensFan_def OpenTok_createToken_def promise_property_def roles_FAN_def Let_def)
qed

end
